theory Spec2Isabelle
  imports Main "HOL-Library.Sublist"
begin

section \<open>Python string operations used by the query engine\<close>

text \<open>
  Query lines, relation names, attribute names and cell values are Python \<open>str\<close>
  values.  They are modelled as \<open>string\<close> (lists of 8-bit characters, each read as
  the code point of that number).  The functions below are the \<open>str\<close> methods that
  \<open>Fileread.py\<close> and \<open>newonetest.py\<close> call.
\<close>

definition is_space :: "char \<Rightarrow> bool" where
  \<comment> \<open>\<open>str.isspace\<close> on the code points below 256.\<close>
  "is_space c = ((of_char c :: nat) \<in> set [9, 10, 11, 12, 13, 28, 29, 30, 31, 32, 133, 160])"

definition strip :: "string \<Rightarrow> string" where
  \<comment> \<open>\<open>s.strip()\<close>\<close>
  "strip s = rev (dropWhile is_space (rev (dropWhile is_space s)))"

definition strip_chars :: "string \<Rightarrow> string \<Rightarrow> string" where
  \<comment> \<open>\<open>s.strip(cs)\<close>\<close>
  "strip_chars cs s = rev (dropWhile (\<lambda>c. c \<in> set cs) (rev (dropWhile (\<lambda>c. c \<in> set cs) s)))"

definition startswith :: "string \<Rightarrow> string \<Rightarrow> bool" where
  \<comment> \<open>\<open>s.startswith(p)\<close>\<close>
  "startswith s p = prefix p s"

definition endswith :: "string \<Rightarrow> string \<Rightarrow> bool" where
  \<comment> \<open>\<open>s.endswith(p)\<close>\<close>
  "endswith s p = suffix p s"

fun find_sub :: "string \<Rightarrow> string \<Rightarrow> nat option" where
  \<comment> \<open>\<open>s.find(sep)\<close>: the index of the leftmost occurrence of \<open>sep\<close> in \<open>s\<close>.\<close>
  "find_sub sep [] = (if sep = [] then Some 0 else None)"
| "find_sub sep (c # cs) =
     (if prefix sep (c # cs) then Some 0 else map_option Suc (find_sub sep cs))"

definition contains :: "string \<Rightarrow> string \<Rightarrow> bool" where
  \<comment> \<open>\<open>sep in s\<close>\<close>
  "contains sep s = (find_sub sep s \<noteq> None)"

lemma find_sub_bound:
  "find_sub sep s = Some i \<Longrightarrow> i + length sep \<le> length s"
proof (induction s arbitrary: i)
  case Nil
  then show ?case by (simp split: if_splits)
next
  case (Cons c cs)
  show ?case
  proof (cases "prefix sep (c # cs)")
    case True
    with Cons.prems have "i = 0" by simp
    moreover from True have "length sep \<le> length (c # cs)" by (rule prefix_length_le)
    ultimately show ?thesis by simp
  next
    case False
    with Cons.prems obtain j where "find_sub sep cs = Some j" "i = Suc j"
      by auto
    with Cons.IH show ?thesis by fastforce
  qed
qed

function split :: "string \<Rightarrow> string \<Rightarrow> string list" where
  \<comment> \<open>\<open>s.split(sep)\<close> for a non-empty separator.  Every call in the source passes a
      non-empty literal; Python raises on an empty one, which is left as \<open>[s]\<close> here.\<close>
  "split sep s =
     (if sep = [] then [s]
      else case find_sub sep s of
             None \<Rightarrow> [s]
           | Some i \<Rightarrow> take i s # split sep (drop (i + length sep) s))"
  by pat_completeness auto
termination
proof (relation "measure (\<lambda>(sep, s). length s)")
  show "wf (measure (\<lambda>(sep, s). length s))" by simp
next
  fix sep s :: string and i :: nat
  assume ne: "sep \<noteq> []" and f: "find_sub sep s = Some i"
  from find_sub_bound [OF f] ne have "0 < length s" by (cases sep) auto
  with ne show "((sep, drop (i + length sep) s), (sep, s)) \<in> measure (\<lambda>(sep, s). length s)"
    by (cases sep) auto
qed

declare split.simps [simp del]

definition split_once :: "string \<Rightarrow> string \<Rightarrow> string list" where
  \<comment> \<open>\<open>s.split(sep, 1)\<close>\<close>
  "split_once sep s =
     (case find_sub sep s of
        None \<Rightarrow> [s]
      | Some i \<Rightarrow> [take i s, drop (i + length sep) s])"

fun split_ws_aux :: "string \<Rightarrow> string \<Rightarrow> string list" where
  "split_ws_aux cur [] = (if cur = [] then [] else [cur])"
| "split_ws_aux cur (c # cs) =
     (if is_space c then (if cur = [] then split_ws_aux [] cs else cur # split_ws_aux [] cs)
      else split_ws_aux (cur @ [c]) cs)"

definition split_ws :: "string \<Rightarrow> string list" where
  \<comment> \<open>\<open>s.split()\<close>: the maximal runs of non-whitespace characters.\<close>
  "split_ws s = split_ws_aux [] s"

definition index_of :: "'a list \<Rightarrow> 'a \<Rightarrow> nat" where
  \<comment> \<open>\<open>xs.index(x)\<close>; the source calls it only after \<open>x in xs\<close> held.\<close>
  "index_of xs x = length (takeWhile (\<lambda>y. y \<noteq> x) xs)"


section \<open>Relations, the relation store, errors and the runtime\<close>

text \<open>
  \<open>self.relations\<close> is a dictionary from a relation's name to its attribute header and
  its data rows.  Python dictionaries iterate in insertion order and
  \<open>get_attribute_index\<close> depends on that order, so the store is an association list in
  insertion order (keys are file names of one directory, hence distinct); lookup by name is
  \<open>map_of\<close>.
\<close>

record relation =
  attributes :: "string list"
  data :: "string list list"

type_synonym store = "(string \<times> relation) list"

type_synonym table = "string list list"

text \<open>
  Every exception the two files can raise, named by the error kinds of the specification
  where it has one.  \<open>IndexError\<close>, \<open>AttributeError\<close> (a method the class does not define),
  \<open>TypeError\<close> (a call with the wrong number of arguments) and \<open>UnpackError\<close> (a failed
  tuple assignment other than a condition's) keep Python's names.  \<open>PrintError\<close> is the
  exception of a \<open>print\<close> call whose output stream rejects the text.
\<close>

datatype error =
    UnknownRelation string
  | UnknownAttribute string
  | MalformedCondition
  | ArityError
  | SchemaMismatch
  | TypeMismatch
  | InvalidFormat
  | IndexError
  | UnpackError
  | AttributeError string
  | TypeError
  | PrintError

text \<open>
  What the source leaves to the Python runtime is a parameter of the model:
  \<open>pyfloat\<close> is \<open>float(s)\<close> (\<open>None\<close> when it raises \<open>ValueError\<close>), \<open>flt\<close> is \<open><\<close> on
  floats (\<open>a > b\<close> is \<open>flt b a\<close>), and \<open>set_list\<close> is the order in which
  \<open>list(set(rows))\<close> enumerates the rows it was built from.
\<close>

record 'f runtime =
  pyfloat :: "string \<Rightarrow> 'f option"
  flt :: "'f \<Rightarrow> 'f \<Rightarrow> bool"
  set_list :: "table \<Rightarrow> table"

definition set_semantics :: "'f runtime \<Rightarrow> bool" where
  \<comment> \<open>What Python guarantees of a set: each row once, and no other row.\<close>
  "set_semantics rt = (\<forall>rows. distinct (set_list rt rows) \<and> set (set_list rt rows) = set rows)"

section \<open>Operations shared by both files\<close>

definition relation_part :: "string \<Rightarrow> string" where
  \<comment> \<open>\<open>query.split('(')[-1].split(')')[0].strip()\<close>\<close>
  "relation_part query = strip (hd (split '')'' (last (split ''('' query))))"

definition brace_part :: "string \<Rightarrow> error + string" where
  \<comment> \<open>\<open>query.split('{')[1].split('}')[0]\<close>\<close>
  "brace_part query =
     (case split ''{'' query of
        _ # p # _ \<Rightarrow> Inr (hd (split ''}'' p))
      | _ \<Rightarrow> Inl IndexError)"

definition evaluate_condition :: "'f runtime \<Rightarrow> string \<Rightarrow> string \<Rightarrow> string \<Rightarrow> error + bool" where
  "evaluate_condition rt val operator condition_value =
     (if operator = ''>'' then
        (case pyfloat rt val of
           None \<Rightarrow> Inl TypeMismatch
         | Some a \<Rightarrow>
             (case pyfloat rt condition_value of
                None \<Rightarrow> Inl TypeMismatch
              | Some b \<Rightarrow> Inr (flt rt b a)))
      else if operator = ''<'' then
        (case pyfloat rt val of
           None \<Rightarrow> Inl TypeMismatch
         | Some a \<Rightarrow>
             (case pyfloat rt condition_value of
                None \<Rightarrow> Inl TypeMismatch
              | Some b \<Rightarrow> Inr (flt rt a b)))
      else if operator = ''='' then Inr (val = condition_value)
      else Inr False)"

fun filter_rows :: "('a \<Rightarrow> error + bool) \<Rightarrow> 'a list \<Rightarrow> error + 'a list" where
  \<comment> \<open>\<open>[row for row in data if p(row)]\<close> where \<open>p\<close> may raise.\<close>
  "filter_rows p [] = Inr []"
| "filter_rows p (x # xs) =
     (case p x of
        Inl e \<Rightarrow> Inl e
      | Inr b \<Rightarrow>
          (case filter_rows p xs of
             Inl e \<Rightarrow> Inl e
           | Inr ys \<Rightarrow> Inr (if b then x # ys else ys)))"

fun column_indices :: "string list \<Rightarrow> string list \<Rightarrow> nat list \<Rightarrow> error + nat list" where
  \<comment> \<open>The loop of \<open>projection\<close> that fills \<open>col_indices\<close>.\<close>
  "column_indices rel_attributes [] col_indices = Inr col_indices"
| "column_indices rel_attributes (attr # rest) col_indices =
     (if attr \<notin> set rel_attributes then Inl (UnknownAttribute attr)
      else column_indices rel_attributes rest (col_indices @ [index_of rel_attributes attr]))"

fun project_row :: "string list \<Rightarrow> nat list \<Rightarrow> error + string list" where
  \<comment> \<open>\<open>[row[i] for i in col_indices]\<close>\<close>
  "project_row row [] = Inr []"
| "project_row row (i # col_indices) =
     (if i < length row then
        (case project_row row col_indices of
           Inl e \<Rightarrow> Inl e
         | Inr vs \<Rightarrow> Inr (row ! i # vs))
      else Inl IndexError)"

fun project_rows :: "table \<Rightarrow> nat list \<Rightarrow> error + table" where
  \<comment> \<open>\<open>[[row[i] for i in col_indices] for row in data]\<close>\<close>
  "project_rows [] col_indices = Inr []"
| "project_rows (row # rows) col_indices =
     (case project_row row col_indices of
        Inl e \<Rightarrow> Inl e
      | Inr r \<Rightarrow>
          (case project_rows rows col_indices of
             Inl e \<Rightarrow> Inl e
           | Inr rs \<Rightarrow> Inr (r # rs)))"

definition attribute_list :: "string \<Rightarrow> string list" where
  \<comment> \<open>\<open>[attr.strip() for attr in payload.strip().split(',')]\<close>\<close>
  "attribute_list payload = map strip (split '','' (strip payload))"


section \<open>\<open>Fileread.py\<close>\<close>

definition get_relation_data :: "store \<Rightarrow> string \<Rightarrow> error + relation" where
  "get_relation_data db relation_name =
     (case map_of db relation_name of
        None \<Rightarrow> Inl (UnknownRelation relation_name)
      | Some rel \<Rightarrow> Inr rel)"

fun get_attribute_index :: "store \<Rightarrow> string \<Rightarrow> error + nat" where
  \<comment> \<open>\<open>for relation in self.relations.values(): if attr in relation['attributes']: return ...\<close>\<close>
  "get_attribute_index [] attr = Inl (UnknownAttribute attr)"
| "get_attribute_index ((name, rel) # rest) attr =
     (if attr \<in> set (attributes rel) then Inr (index_of (attributes rel) attr)
      else get_attribute_index rest attr)"

definition parse_conditions :: "string \<Rightarrow> string list" where
  "parse_conditions condition_str =
     (if contains ''AND'' condition_str then map strip (split ''AND'' condition_str)
      else if contains ''OR'' condition_str then map strip (split ''OR'' condition_str)
      else [condition_str])"

definition evaluate_predicate :: "'f runtime \<Rightarrow> store \<Rightarrow> string list \<Rightarrow> string \<Rightarrow> error + bool" where
  \<comment> \<open>The body of the loop of \<open>evaluate_conditions\<close> for one non-empty condition.\<close>
  "evaluate_predicate rt db row condition =
     (case split_ws condition of
        [attr, operator, val] \<Rightarrow>
          (case get_attribute_index db attr of
             Inl e \<Rightarrow> Inl e
           | Inr col_index \<Rightarrow>
               if col_index < length row
               then evaluate_condition rt (row ! col_index) operator (strip_chars [CHR 0x27] val)
               else Inl IndexError)
      | _ \<Rightarrow> Inl MalformedCondition)"

fun evaluate_conditions_loop ::
  "'f runtime \<Rightarrow> store \<Rightarrow> string list \<Rightarrow> string list \<Rightarrow> bool list \<Rightarrow> error + bool list" where
  "evaluate_conditions_loop rt db row [] results = Inr results"
| "evaluate_conditions_loop rt db row (condition # conditions) results =
     (if condition \<noteq> [] then
        (case evaluate_predicate rt db row condition of
           Inl e \<Rightarrow> Inl e
         | Inr b \<Rightarrow> evaluate_conditions_loop rt db row conditions (results @ [b]))
      else evaluate_conditions_loop rt db row conditions results)"

definition evaluate_conditions :: "'f runtime \<Rightarrow> store \<Rightarrow> string list \<Rightarrow> string list \<Rightarrow> error + bool" where
  "evaluate_conditions rt db row conditions =
     (case evaluate_conditions_loop rt db row conditions [] of
        Inl e \<Rightarrow> Inl e
      | Inr results \<Rightarrow> Inr (list_all id results))"

definition selection :: "'f runtime \<Rightarrow> store \<Rightarrow> string \<Rightarrow> error + table" where
  "selection rt db query =
     (let relation_name = relation_part query in
      case brace_part query of
        Inl e \<Rightarrow> Inl e
      | Inr c \<Rightarrow>
          (let condition = strip c in
           case map_of db relation_name of
             None \<Rightarrow> Inl (UnknownRelation relation_name)
           | Some rel \<Rightarrow>
               (let conditions = parse_conditions condition in
                case filter_rows (\<lambda>row. evaluate_conditions rt db row conditions) (data rel) of
                  Inl e \<Rightarrow> Inl e
                | Inr filtered_data \<Rightarrow> Inr (attributes rel # filtered_data))))"

definition cross_rows :: "table \<Rightarrow> table \<Rightarrow> table" where
  \<comment> \<open>\<open>[left_row + right_row for left_row in left for right_row in right]\<close>\<close>
  "cross_rows left right =
     concat (map (\<lambda>left_row. map (\<lambda>right_row. left_row @ right_row) right) left)"

definition crossproduct :: "store \<Rightarrow> string \<Rightarrow> error + table" where
  "crossproduct db query =
     (let relations = split ''*'' (relation_part query) in
      if length relations \<noteq> 2 then Inl ArityError
      else
        case get_relation_data db (strip (relations ! 0)) of
          Inl e \<Rightarrow> Inl e
        | Inr left_relation \<Rightarrow>
            (case get_relation_data db (strip (relations ! 1)) of
               Inl e \<Rightarrow> Inl e
             | Inr right_relation \<Rightarrow>
                 Inr ((attributes left_relation @ attributes right_relation) #
                      cross_rows (data left_relation) (data right_relation))))"

definition projection :: "store \<Rightarrow> string \<Rightarrow> error + table" where
  "projection db query =
     (let relation_query = relation_part query in
      case brace_part query of
        Inl e \<Rightarrow> Inl e
      | Inr payload \<Rightarrow>
          (let attrs = attribute_list payload in
           case (if contains ''*'' relation_query
                 then (case crossproduct db relation_query of
                         Inl e \<Rightarrow> Inl e
                       | Inr [] \<Rightarrow> Inl IndexError
                       | Inr (header # rows) \<Rightarrow> Inr (header, rows))
                 else (case map_of db (strip relation_query) of
                         None \<Rightarrow> Inl (UnknownRelation (strip relation_query))
                       | Some rel \<Rightarrow> Inr (attributes rel, data rel))) of
             Inl e \<Rightarrow> Inl e
           | Inr (rel_attributes, rows) \<Rightarrow>
               (case column_indices rel_attributes attrs [] of
                  Inl e \<Rightarrow> Inl e
                | Inr col_indices \<Rightarrow>
                    (case project_rows rows col_indices of
                       Inl e \<Rightarrow> Inl e
                     | Inr projected_data \<Rightarrow> Inr (attrs # projected_data)))))"

definition union :: "'f runtime \<Rightarrow> store \<Rightarrow> string \<Rightarrow> error + table" where
  "union rt db query =
     (let relations = split ''U'' (relation_part query) in
      if length relations \<noteq> 2 then Inl ArityError
      else
        case get_relation_data db (strip (relations ! 0)) of
          Inl e \<Rightarrow> Inl e
        | Inr left_relation \<Rightarrow>
            (case get_relation_data db (strip (relations ! 1)) of
               Inl e \<Rightarrow> Inl e
             | Inr right_relation \<Rightarrow>
                 if attributes left_relation \<noteq> attributes right_relation then Inl SchemaMismatch
                 else Inr (attributes left_relation #
                           set_list rt (data left_relation @ data right_relation))))"


text \<open>
  \<open>difference\<close> evaluates its two operands with \<open>evaluate_query\<close>, which dispatches on the
  operand's prefix and may call \<open>difference\<close> again; \<open>evaluate_query\<close> catches every
  exception and returns \<open>None\<close> for it.  The recursion is on shorter and shorter strings;
  the three lemmas below are what its termination proof needs.
\<close>

lemma length_strip_le: "length (strip s) \<le> length s"
proof -
  have "length (dropWhile is_space (rev (dropWhile is_space s))) \<le> length (rev (dropWhile is_space s))"
    by (rule length_dropWhile_le)
  also have "\<dots> \<le> length s"
    by (simp add: length_dropWhile_le)
  finally show ?thesis by (simp add: strip_def)
qed

lemma split_not_Nil: "split sep s \<noteq> []"
  by (subst split.simps) (simp split: option.split)

lemma split_single: "split sep s = [r] \<Longrightarrow> r = s"
  by (subst (asm) split.simps) (auto simp: split_not_Nil split: if_splits option.splits)

lemma split_two_length:
  assumes "split sep s = [l, r]"
  shows "length l + length sep + length r = length s" and "sep \<noteq> []"
proof -
  from assms show ne: "sep \<noteq> []"
    by (subst (asm) split.simps) (auto split: if_splits)
  from assms ne obtain i where f: "find_sub sep s = Some i"
    and l: "l = take i s" and rest: "split sep (drop (i + length sep) s) = [r]"
    by (subst (asm) split.simps) (auto split: option.splits)
  from rest have r: "r = drop (i + length sep) s" by (rule split_single)
  from find_sub_bound [OF f] l r show "length l + length sep + length r = length s"
    by simp
qed

definition catch :: "error + 'a \<Rightarrow> 'a option" where
  \<comment> \<open>\<open>try: return f() except Exception: return None\<close>\<close>
  "catch r = (case r of Inl e \<Rightarrow> None | Inr x \<Rightarrow> Some x)"

definition missing_method :: "string \<Rightarrow> error + 'a" where
  \<comment> \<open>A call of a method that the class does not define (\<open>join\<close>, \<open>naturaljoin\<close>, \<open>AND\<close>, \<open>OR\<close>).\<close>
  "missing_method name = Inl (AttributeError name)"

definition falsy :: "table option \<Rightarrow> bool" where
  \<comment> \<open>\<open>not r\<close> for \<open>r\<close> that is \<open>None\<close> or a list\<close>
  "falsy r = (r = None \<or> r = Some [])"

definition difference_rows :: "'f runtime \<Rightarrow> table option \<Rightarrow> table option \<Rightarrow> error + table option" where
  \<comment> \<open>Lines 217 to 242 of \<open>Fileread.py\<close>, after the two operands are evaluated.\<close>
  "difference_rows rt left_relation right_relation =
     (if falsy left_relation \<or> falsy right_relation then Inr None
      else
        case (left_relation, right_relation) of
          (Some (left_header # left_data), Some (right_header # right_data)) \<Rightarrow>
            if length left_header \<noteq> length right_header then Inl SchemaMismatch
            else
              (let difference_data = set_list rt (filter (\<lambda>row. row \<notin> set right_data) left_data) in
               if difference_data \<noteq> [] then Inr (Some (left_header # difference_data))
               else Inr (Some [left_header]))
        | _ \<Rightarrow> Inr None)"

function difference :: "'f runtime \<Rightarrow> store \<Rightarrow> string \<Rightarrow> error + table option"
  and evaluate_query :: "'f runtime \<Rightarrow> store \<Rightarrow> string \<Rightarrow> table option" where
  "difference rt db query =
     (case split '') - ('' query of
        [left, right] \<Rightarrow>
          difference_rows rt
            (evaluate_query rt db (strip left @ '')''))
            (evaluate_query rt db (''('' @ strip right))
      | _ \<Rightarrow> Inl InvalidFormat)"
| "evaluate_query rt db query0 =
     (let query = strip query0 in
      if startswith query ''SELE'' then catch (selection rt db query)
      else if startswith query ''PROJ'' then catch (projection db query)
      else if startswith query ''X'' then catch (crossproduct db query)
      else if startswith query ''JOIN'' then catch (missing_method ''join'')
      else if startswith query ''*'' then catch (missing_method ''naturaljoin'')
      else if startswith query ''U'' then catch (union rt db query)
      else if startswith query ''-'' then
        (case difference rt db query of Inl e \<Rightarrow> None | Inr r \<Rightarrow> r)
      else None)"
  by pat_completeness auto
termination
proof (relation "measure (\<lambda>x. case x of
                              Inl (rt, db, query) \<Rightarrow> 2 * length query
                            | Inr (rt, db, query) \<Rightarrow> 2 * length query + 1)")
  show "wf (measure (\<lambda>x. case x of
                              Inl (rt, db, query) \<Rightarrow> 2 * length query
                            | Inr (rt, db, query) \<Rightarrow> 2 * length query + 1))"
    by simp
next
  fix rt :: "'f runtime" and db :: store and query left :: string and rest1 :: "string list"
    and right :: string and rest2 :: "string list"
  assume "split '') - ('' query = left # rest1" "rest1 = right # rest2" "rest2 = []"
  then have sp: "split '') - ('' query = [left, right]" by simp
  have "length (strip left) \<le> length left" "length (strip right) \<le> length right"
    by (rule length_strip_le)+
  with split_two_length(1) [OF sp]
  show "(Inr (rt, db, strip left @ '')''), Inl (rt, db, query)) \<in> measure (\<lambda>x. case x of
                              Inl (rt, db, query) \<Rightarrow> 2 * length query
                            | Inr (rt, db, query) \<Rightarrow> 2 * length query + 1)"
    and "(Inr (rt, db, ''('' @ strip right), Inl (rt, db, query)) \<in> measure (\<lambda>x. case x of
                              Inl (rt, db, query) \<Rightarrow> 2 * length query
                            | Inr (rt, db, query) \<Rightarrow> 2 * length query + 1)"
    by simp_all
next
  fix rt :: "'f runtime" and db :: store and query0 query :: string
  assume "query = strip query0"
  with length_strip_le [of query0]
  show "(Inl (rt, db, query), Inr (rt, db, query0)) \<in> measure (\<lambda>x. case x of
                              Inl (rt, db, query) \<Rightarrow> 2 * length query
                            | Inr (rt, db, query) \<Rightarrow> 2 * length query + 1)"
    by simp
qed

declare difference.simps [simp del] evaluate_query.simps [simp del]


text \<open>
  \<open>process_queries_from_file\<close> reads the query file into the list \<open>queries\<close> of its
  lines, runs the loop below with \<open>results = []\<close>, and writes \<open>results\<close> with a CSV
  writer.  The file system is outside the model: the function takes the lines and returns
  the rows it hands to the writer.  A result is a list of rows, \<open>None\<close>, or the string
  \<open>"Error: ..."\<close> built in the \<open>except\<close> branch.

  The loop of \<open>Fileread.py\<close> prints: the query and the result inside the \<open>try\<close> block,
  after the entry is appended, and the error inside the \<open>except\<close> branch, after the error
  entry is appended.  A \<open>print\<close> raises when standard output rejects the text (a closed
  stream, a character outside the console's encoding).  The stream is a parameter of the
  loop: it tells for each message whether printing it raises.
\<close>

datatype outcome = Rows table | NoResult | Failed error

datatype message =
    QueryMessage string
  | ResultMessage "table option"
  | ErrorMessage string error

type_synonym stdout = "message \<Rightarrow> bool"

definition returned :: "error + table \<Rightarrow> error + table option" where
  "returned r = (case r of Inl e \<Rightarrow> Inl e | Inr t \<Rightarrow> Inr (Some t))"


definition outcome_of :: "error + table option \<Rightarrow> outcome" where
  "outcome_of r = (case r of Inl e \<Rightarrow> Failed e | Inr None \<Rightarrow> NoResult | Inr (Some t) \<Rightarrow> Rows t)"

fun process_loop ::
  "stdout \<Rightarrow> (string \<Rightarrow> error + table option) \<Rightarrow> string list \<Rightarrow> (string \<times> outcome) list \<Rightarrow>
   error + (string \<times> outcome) list" where
  \<comment> \<open>\<open>for query in queries: query = query.strip();
      try: result = ...; results.append((query, result)); print(query); print(result)
      except Exception as e: results.append((query, "Error: ...")); print(error)\<close>.
      An exception of the \<open>try\<close> block, the two prints included, enters the \<open>except\<close> branch;
      an exception of the \<open>except\<close> branch leaves the loop.\<close>
  "process_loop out run [] results = Inr results"
| "process_loop out run (line # queries) results =
     (let query = strip line in
      case run query of
        Inl e \<Rightarrow>
          (let results1 = results @ [(query, Failed e)] in
           if out (ErrorMessage query e) then Inl PrintError
           else process_loop out run queries results1)
      | Inr result \<Rightarrow>
          (let results1 = results @ [(query, outcome_of (Inr result))] in
           if out (QueryMessage query) \<or> out (ResultMessage result) then
             (let results2 = results1 @ [(query, Failed PrintError)] in
              if out (ErrorMessage query PrintError) then Inl PrintError
              else process_loop out run queries results2)
           else process_loop out run queries results1))"

definition report_entry :: "string \<times> outcome \<Rightarrow> table" where
  \<comment> \<open>\<open>writer.writerow([query]); if isinstance(result, list): writer.writerows(result);
      writer.writerow([])\<close>\<close>
  "report_entry entry =
     (case entry of (query, result) \<Rightarrow>
        [[query]] @ (case result of Rows t \<Rightarrow> t | NoResult \<Rightarrow> [] | Failed e \<Rightarrow> []) @ [[]])"

definition write_report :: "(string \<times> outcome) list \<Rightarrow> table" where
  "write_report results = concat (map report_entry results)"


text \<open>
  \<open>difference\<close> and \<open>evaluate_query\<close> print as well.  Those calls are not part of the two
  functions above, so for a line that reaches them the loop is exact when they succeed.
\<close>

section \<open>\<open>newonetest.py\<close>\<close>

text \<open>
  The second file defines the same class again.  Its functions carry the suffix \<open>_nt\<close>
  here; \<open>evaluate_condition\<close> is the same in both files.  Its \<open>selection\<close> and
  \<open>projection\<close> return the data rows without the attribute header.
\<close>

definition selection_nt :: "'f runtime \<Rightarrow> store \<Rightarrow> string \<Rightarrow> error + table" where
  "selection_nt rt db query =
     (let relation_name = relation_part query in
      case brace_part query of
        Inl e \<Rightarrow> Inl e
      | Inr c \<Rightarrow>
          (let condition = strip c in
           case map_of db relation_name of
             None \<Rightarrow> Inl (UnknownRelation relation_name)
           | Some rel \<Rightarrow>
               (case split_ws condition of
                  [attr, operator, val] \<Rightarrow>
                    if attr \<notin> set (attributes rel) then Inl (UnknownAttribute attr)
                    else
                      (let col_index = index_of (attributes rel) attr in
                       filter_rows
                         (\<lambda>row. if col_index < length row
                                then evaluate_condition rt (row ! col_index) operator
                                       (strip_chars [CHR 0x27] val)
                                else Inl IndexError)
                         (data rel))
                | _ \<Rightarrow> Inl MalformedCondition)))"

definition projection_nt :: "store \<Rightarrow> string \<Rightarrow> error + table" where
  "projection_nt db query =
     (let relation_name = relation_part query in
      case brace_part query of
        Inl e \<Rightarrow> Inl e
      | Inr payload \<Rightarrow>
          (let attrs = attribute_list payload in
           case map_of db relation_name of
             None \<Rightarrow> Inl (UnknownRelation relation_name)
           | Some rel \<Rightarrow>
               (case column_indices (attributes rel) attrs [] of
                  Inl e \<Rightarrow> Inl e
                | Inr col_indices \<Rightarrow> project_rows (data rel) col_indices)))"

definition unwrap :: "string \<Rightarrow> string" where
  \<comment> \<open>\<open>if query.startswith('(') and query.endswith(')'): query = query[1:-1].strip()\<close>\<close>
  "unwrap query =
     (if startswith query ''('' \<and> endswith query '')'' then strip (butlast (tl query)) else query)"

lemma length_unwrap_le: "length (unwrap query) \<le> length query"
proof -
  have "length (strip (butlast (tl query))) \<le> length (butlast (tl query))"
    by (rule length_strip_le)
  also have "\<dots> \<le> length query" by simp
  finally show ?thesis by (simp add: unwrap_def)
qed

lemma split_once_two_length:
  assumes "split_once sep s = [l, r]"
  shows "length l + length sep + length r = length s"
proof -
  from assms obtain i where f: "find_sub sep s = Some i"
    and l: "l = take i s" and r: "r = drop (i + length sep) s"
    by (auto simp: split_once_def split: option.splits)
  from find_sub_bound [OF f] l r show ?thesis by simp
qed

function execute_query_nt :: "'f runtime \<Rightarrow> store \<Rightarrow> string \<Rightarrow> error + table"
  and union_nt :: "'f runtime \<Rightarrow> store \<Rightarrow> string \<Rightarrow> string \<Rightarrow> error + table" where
  "execute_query_nt rt db query0 =
     (let query = unwrap query0 in
      if contains ''U'' query then
        (case split_once ''U'' query of
           [left, right] \<Rightarrow> union_nt rt db (strip left) (strip right)
         | _ \<Rightarrow> Inl UnpackError)
      else if contains ''-'' query then
        (case split_once ''-'' query of
           [left, right] \<Rightarrow> Inl TypeError
         | _ \<Rightarrow> Inl UnpackError)
      else if startswith query ''SELE'' then selection_nt rt db query
      else if startswith query ''PROJ'' then projection_nt db query
      else if startswith query ''X'' then missing_method ''crossproduct''
      else Inr [])"
| "union_nt rt db left_query right_query =
     (case execute_query_nt rt db left_query of
        Inl e \<Rightarrow> Inl e
      | Inr left_result \<Rightarrow>
          (case execute_query_nt rt db right_query of
             Inl e \<Rightarrow> Inl e
           | Inr right_result \<Rightarrow>
               Inr (left_result @ filter (\<lambda>row. row \<notin> set left_result) right_result)))"
  by pat_completeness auto
termination
proof (relation "measure (\<lambda>x. case x of
                              Inl (rt, db, query) \<Rightarrow> 2 * length query + 1
                            | Inr (rt, db, left, right) \<Rightarrow> 2 * (length left + length right) + 2)")
  show "wf (measure (\<lambda>x. case x of
                              Inl (rt, db, query) \<Rightarrow> 2 * length query + 1
                            | Inr (rt, db, left, right) \<Rightarrow> 2 * (length left + length right) + 2))"
    by simp
next
  fix rt :: "'f runtime" and db :: store and query0 query left :: string
    and rest1 :: "string list" and right :: string and rest2 :: "string list"
  assume q: "query = unwrap query0"
    and "split_once ''U'' query = left # rest1" "rest1 = right # rest2" "rest2 = []"
  then have "split_once ''U'' query = [left, right]" by simp
  from split_once_two_length [OF this] have "length left + length right + 1 = length query"
    by simp
  moreover have "length (strip left) \<le> length left" "length (strip right) \<le> length right"
    by (rule length_strip_le)+
  moreover from q have "length query \<le> length query0" by (simp add: length_unwrap_le)
  ultimately
  show "(Inr (rt, db, strip left, strip right), Inl (rt, db, query0)) \<in> measure (\<lambda>x. case x of
                              Inl (rt, db, query) \<Rightarrow> 2 * length query + 1
                            | Inr (rt, db, left, right) \<Rightarrow> 2 * (length left + length right) + 2)"
    by simp
next
  fix rt :: "'f runtime" and db :: store and left_query right_query :: string
  show "(Inl (rt, db, left_query), Inr (rt, db, left_query, right_query)) \<in> measure (\<lambda>x. case x of
                              Inl (rt, db, query) \<Rightarrow> 2 * length query + 1
                            | Inr (rt, db, left, right) \<Rightarrow> 2 * (length left + length right) + 2)"
    by simp
next
  fix rt :: "'f runtime" and db :: store and left_query right_query :: string
  show "(Inl (rt, db, right_query), Inr (rt, db, left_query, right_query)) \<in> measure (\<lambda>x. case x of
                              Inl (rt, db, query) \<Rightarrow> 2 * length query + 1
                            | Inr (rt, db, left, right) \<Rightarrow> 2 * (length left + length right) + 2)"
    by simp
qed

declare execute_query_nt.simps [simp del] union_nt.simps [simp del]

text \<open>
  \<open>difference\<close> of \<open>newonetest.py\<close> takes one query text, splits it at \<open>-\<close> and evaluates
  the two parts with \<open>process_single_query\<close>, which may call \<open>difference\<close> again.
  \<open>execute_query\<close> calls it with two arguments, which is the \<open>TypeError\<close> above; the
  function is modelled as it would run when called with the one argument it declares.
\<close>

lemma split_two_strip_less:
  assumes "split sep s = [l, r]"
  shows "length (strip l) < length s" and "length (strip r) < length s"
proof -
  from split_two_length [OF assms] have "length l < length s" "length r < length s"
    by (cases sep; simp)+
  moreover have "length (strip l) \<le> length l" "length (strip r) \<le> length r"
    by (rule length_strip_le)+
  ultimately show "length (strip l) < length s" and "length (strip r) < length s"
    by simp_all
qed

definition difference_results_nt ::
  "'f runtime \<Rightarrow> table option \<Rightarrow> table option \<Rightarrow> error + table option" where
  \<comment> \<open>Lines 118 to 137 of \<open>newonetest.py\<close>, after the two operands are evaluated: the
      first row of each result is taken for its header.\<close>
  "difference_results_nt rt left_result right_result =
     (case (left_result, right_result) of
        (Some l, Some r) \<Rightarrow>
          (case l of
             [] \<Rightarrow> Inl IndexError
           | left_header # left_rows \<Rightarrow>
               (case r of
                  [] \<Rightarrow> Inl IndexError
                | right_header # right_rows \<Rightarrow>
                    if left_header \<noteq> right_header then Inl SchemaMismatch
                    else Inr (Some (left_header #
                           set_list rt (filter (\<lambda>row. row \<notin> set right_rows) left_rows)))))
      | _ \<Rightarrow> Inr None)"

function difference_nt :: "'f runtime \<Rightarrow> store \<Rightarrow> string \<Rightarrow> error + table option"
  and process_single_query_nt :: "'f runtime \<Rightarrow> store \<Rightarrow> string \<Rightarrow> error + table option" where
  "difference_nt rt db query =
     (case split ''-'' query of
        [left_query, right_query] \<Rightarrow>
          (case process_single_query_nt rt db (strip left_query) of
             Inl e \<Rightarrow> Inl e
           | Inr left_result \<Rightarrow>
               (case process_single_query_nt rt db (strip right_query) of
                  Inl e \<Rightarrow> Inl e
                | Inr right_result \<Rightarrow> difference_results_nt rt left_result right_result))
      | _ \<Rightarrow> Inl UnpackError)"
| "process_single_query_nt rt db query0 =
     (let query = strip query0 in
      if startswith query ''SELE'' then returned (selection_nt rt db query)
      else if startswith query ''PROJ'' then returned (projection_nt db query)
      else if startswith query ''X'' then missing_method ''crossproduct''
      else if startswith query ''JOIN'' then missing_method ''join''
      else if startswith query ''*'' then missing_method ''naturaljoin''
      else if startswith query ''U'' then Inl TypeError
      else if startswith query ''-'' then difference_nt rt db query
      else Inr None)"
  by pat_completeness auto
termination
  by (relation "measure (\<lambda>x. case x of
                           Inl (rt, db, query) \<Rightarrow> 2 * length query
                         | Inr (rt, db, query) \<Rightarrow> 2 * length query + 1)")
     (auto dest: split_two_strip_less simp: length_strip_le le_imp_less_Suc)

declare difference_nt.simps [simp del] process_single_query_nt.simps [simp del]

text \<open>The loop of \<open>newonetest.py\<close> prints nothing, so nothing in it can leave the loop.\<close>

fun process_loop_nt ::
  "(string \<Rightarrow> error + table) \<Rightarrow> string list \<Rightarrow> (string \<times> outcome) list \<Rightarrow>
   (string \<times> outcome) list" where
  \<comment> \<open>\<open>for query in queries: query = query.strip();
      try: result = self.execute_query(query); results.append((query, result))
      except Exception as e: results.append((query, "Error: ..."))\<close>\<close>
  "process_loop_nt run [] results = results"
| "process_loop_nt run (line # queries) results =
     (let query = strip line in
      case run query of
        Inl e \<Rightarrow> process_loop_nt run queries (results @ [(query, Failed e)])
      | Inr result \<Rightarrow> process_loop_nt run queries (results @ [(query, Rows result)]))"

definition process_queries_from_file_nt :: "'f runtime \<Rightarrow> store \<Rightarrow> string list \<Rightarrow> table" where
  "process_queries_from_file_nt rt db queries =
     write_report (process_loop_nt (execute_query_nt rt db) queries [])"


section \<open>Notions used to state the properties\<close>

text \<open>
  Three ways to cut a text at a pair of characters.  \<open>before_first\<close> and \<open>after_last\<close>
  describe what the source computes; \<open>between_first_and_last\<close> follows the words of the
  specification: everything between the first \<open>(\<close> and the last \<open>)\<close> of the line.
\<close>

definition before_first :: "char \<Rightarrow> string \<Rightarrow> string" where
  "before_first c s = takeWhile (\<lambda>x. x \<noteq> c) s"

definition after_last :: "char \<Rightarrow> string \<Rightarrow> string" where
  "after_last c s = rev (takeWhile (\<lambda>x. x \<noteq> c) (rev s))"

definition between_first_and_last :: "char \<Rightarrow> char \<Rightarrow> string \<Rightarrow> string" where
  "between_first_and_last a b s =
     rev (drop 1 (dropWhile (\<lambda>x. x \<noteq> b) (rev (drop 1 (dropWhile (\<lambda>x. x \<noteq> a) s)))))"

text \<open>
  What a predicate says of a row of its source relation, in the words of the
  specification: the attribute's column is found by scanning the source relation's
  attribute list (unknown when absent), and the cell of that column is compared with the
  literal.  \<open>resolves_in_source\<close> says of a predicate that \<open>Fileread.py\<close> finds its
  attribute at that same position.
\<close>

definition predicate_holds :: "'f runtime \<Rightarrow> relation \<Rightarrow> string list \<Rightarrow> string \<Rightarrow> error + bool" where
  "predicate_holds rt rel row condition =
     (case split_ws condition of
        [attr, operator, val] \<Rightarrow>
          if attr \<notin> set (attributes rel) then Inl (UnknownAttribute attr)
          else if index_of (attributes rel) attr < length row
          then evaluate_condition rt (row ! index_of (attributes rel) attr) operator
                 (strip_chars [CHR 0x27] val)
          else Inl IndexError
      | _ \<Rightarrow> Inl MalformedCondition)"

definition resolves_in_source :: "store \<Rightarrow> relation \<Rightarrow> string \<Rightarrow> bool" where
  "resolves_in_source db rel condition =
     (case split_ws condition of
        [attr, operator, val] \<Rightarrow>
          attr \<in> set (attributes rel) \<and>
          get_attribute_index db attr = Inr (index_of (attributes rel) attr)
      | _ \<Rightarrow> True)"

text \<open>
  \<open>join sep ps\<close> is Python's \<open>sep.join(ps)\<close>: the condition text in which the predicates
  \<open>ps\<close> are combined with the separator \<open>sep\<close>.
\<close>

fun join :: "string \<Rightarrow> string list \<Rightarrow> string" where
  "join sep [] = []"
| "join sep [p] = p"
| "join sep (p # q # ps) = p @ sep @ join sep (q # ps)"

section \<open>Sample data\<close>

text \<open>
  The relations of the specification's end-to-end scenario, a store with two relations
  that share attribute names at different positions, a relation with an attribute whose
  name contains \<open>OR\<close>, a relation whose name contains \<open>U\<close>, two output streams, and a
  runtime whose \<open>float\<close> reads unsigned decimal numerals and whose sets enumerate in
  first-occurrence order.  They are the concrete inputs at which the theorems below are
  instantiated.
\<close>

definition emp :: relation where
  "emp = \<lparr>attributes = [''id'', ''name'', ''salary''],
          data = [[''1'', ''Al'', ''50''], [''2'', ''Bo'', ''90'']]\<rparr>"

definition dept :: relation where
  "dept = \<lparr>attributes = [''id'', ''dname''], data = [[''1'', ''Eng'']]\<rparr>"

definition sample_store :: store where
  "sample_store = [(''EMP'', emp), (''DEPT'', dept)]"

definition rel_a :: relation where
  "rel_a = \<lparr>attributes = [''k'', ''v'', ''w''], data = [[''1'', ''2'', ''3'']]\<rparr>"

definition rel_b :: relation where
  "rel_b = \<lparr>attributes = [''v'', ''k''], data = [[''1'', ''2''], [''1'', ''2'']]\<rparr>"

definition shared_store :: store where
  "shared_store = [(''A'', rel_a), (''B'', rel_b)]"

definition cast_rel :: relation where
  "cast_rel = \<lparr>attributes = [''ACTOR'', ''PAY''], data = [[''Bo'', ''90'']]\<rparr>"

definition cast_store :: store where
  "cast_store = [(''CAST'', cast_rel)]"

definition student :: relation where
  "student = \<lparr>attributes = [''id''], data = [[''1'']]\<rparr>"

definition student_store :: store where
  "student_store = [(''STUDENT'', student)]"



definition decimal :: "string \<Rightarrow> nat option" where
  "decimal s =
     (if s \<noteq> [] \<and> list_all (\<lambda>c. c \<in> set ''0123456789'') s
      then Some (foldl (\<lambda>n c. 10 * n + (of_char c - 48)) 0 s)
      else None)"

definition sample_runtime :: "nat runtime" where
  "sample_runtime = \<lparr>pyfloat = decimal, flt = (<), set_list = remdups\<rparr>"


section \<open>Cross product\<close>

lemma cross_rows_length: "length (cross_rows left right) = length left * length right"
  by (induction left) (simp_all add: cross_rows_def)

lemma cross_rows_nth:
  "i < length left \<Longrightarrow> j < length right \<Longrightarrow>
   cross_rows left right ! (i * length right + j) = left ! i @ right ! j"
proof (induction left arbitrary: i)
  case Nil
  then show ?case by simp
next
  case (Cons a left)
  have unfold: "cross_rows (a # left) right = map (\<lambda>r. a @ r) right @ cross_rows left right"
    by (simp add: cross_rows_def)
  show ?case
  proof (cases i)
    case 0
    with Cons.prems show ?thesis by (simp add: unfold nth_append)
  next
    case (Suc k)
    with Cons.prems have "k < length left" by simp
    from Cons.IH [OF this Cons.prems(2)] Suc show ?thesis
      by (simp add: unfold nth_append)
  qed
qed

text \<open>
  Claim C3.  When the operand text of a cross-product query names two stored relations
  \<open>A\<close> and \<open>B\<close>, the result's header is \<open>A\<close>'s attributes followed by \<open>B\<close>'s, and its
  rows are the \<open>|A.rows| * |B.rows|\<close> concatenations with the left row varying slowest:
  the row at position \<open>i * |B.rows| + j\<close> is the \<open>i\<close>-th row of \<open>A\<close> followed by the
  \<open>j\<close>-th row of \<open>B\<close>.
\<close>

theorem crossproduct_is_cartesian:
  assumes "split ''*'' (relation_part query) = [l, r]"
    and "map_of db (strip l) = Some A" and "map_of db (strip r) = Some B"
  shows "crossproduct db query =
           Inr ((attributes A @ attributes B) # cross_rows (data A) (data B))
     \<and> length (attributes A @ attributes B) = length (attributes A) + length (attributes B)
     \<and> length (cross_rows (data A) (data B)) = length (data A) * length (data B)
     \<and> (\<forall>i<length (data A). \<forall>j<length (data B).
           cross_rows (data A) (data B) ! (i * length (data B) + j) = data A ! i @ data B ! j)"
  using assms
  by (simp add: crossproduct_def get_relation_data_def cross_rows_length cross_rows_nth)

theorem crossproduct_is_cartesian_witness:
  "crossproduct sample_store ''X (EMP * DEPT)'' =
     Inr [[''id'', ''name'', ''salary'', ''id'', ''dname''],
          [''1'', ''Al'', ''50'', ''1'', ''Eng''],
          [''2'', ''Bo'', ''90'', ''1'', ''Eng'']]"
proof -
  have h1: "split ''*'' (relation_part ''X (EMP * DEPT)'') = [''EMP '', '' DEPT'']"
    by code_simp
  have h2: "map_of sample_store (strip ''EMP '') = Some emp"
    by code_simp
  have h3: "map_of sample_store (strip '' DEPT'') = Some dept"
    by code_simp
  from crossproduct_is_cartesian [OF h1 h2 h3] show ?thesis
    by (simp add: emp_def dept_def cross_rows_def)
qed


section \<open>Union in \<open>newonetest.py\<close>\<close>

lemma split_once_two_contains: "split_once sep s = [l, r] \<Longrightarrow> contains sep s"
  by (auto simp: split_once_def contains_def split: option.splits)

text \<open>
  Claim C10.  In \<open>newonetest.py\<close> a line that splits at its first \<open>U\<close> into two operands
  that both evaluate yields the left operand's rows, all of them and in their order,
  followed by the right operand's rows that do not occur among the left rows, in their
  order.  Nothing else is checked or removed: the result is a function of the two row
  lists alone.
\<close>

theorem union_nt_keeps_order:
  assumes "split_once ''U'' (unwrap query) = [l, r]"
    and "execute_query_nt rt db (strip l) = Inr L"
    and "execute_query_nt rt db (strip r) = Inr R"
  shows "union_nt rt db (strip l) (strip r) = Inr (L @ filter (\<lambda>row. row \<notin> set L) R)
       \<and> execute_query_nt rt db query = Inr (L @ filter (\<lambda>row. row \<notin> set L) R)"
proof -
  have u: "union_nt rt db (strip l) (strip r) = Inr (L @ filter (\<lambda>row. row \<notin> set L) R)"
    using assms(2,3) by (simp add: union_nt.simps)
  from assms(1) have "contains ''U'' (unwrap query)" by (rule split_once_two_contains)
  with assms(1) u show ?thesis
    by (simp add: execute_query_nt.simps [of rt db query] Let_def)
qed

text \<open>
  The witness: the left operand has the same row twice and both copies stay; the right
  operand comes from a relation with another header and is appended without an error.
\<close>

theorem union_nt_keeps_order_witness:
  "execute_query_nt sample_runtime shared_store ''SELE (B) {v = 1} U SELE (A) {k = 1}'' =
     Inr [[''1'', ''2''], [''1'', ''2''], [''1'', ''2'', ''3'']]"
proof -
  have h1: "split_once ''U'' (unwrap ''SELE (B) {v = 1} U SELE (A) {k = 1}'') =
              [''SELE (B) {v = 1} '', '' SELE (A) {k = 1}'']"
    by code_simp
  have h2: "execute_query_nt sample_runtime shared_store (strip ''SELE (B) {v = 1} '') =
              Inr [[''1'', ''2''], [''1'', ''2'']]"
    by code_simp
  have h3: "execute_query_nt sample_runtime shared_store (strip '' SELE (A) {k = 1}'') =
              Inr [[''1'', ''2'', ''3'']]"
    by code_simp
  from union_nt_keeps_order [OF h1 h2 h3] show ?thesis by simp
qed

section \<open>Attribute resolution in a selection\<close>

text \<open>
  Claim C1.  \<open>Fileread.py\<close> resolves a condition's attribute with \<open>get_attribute_index\<close>,
  which returns the position of the attribute in the first stored relation that has it,
  whatever the source relation of the selection is.  In the store below relation \<open>A\<close> has
  the header \<open>k, v, w\<close> and relation \<open>B\<close> the header \<open>v, k\<close>, with two rows \<open>1, 2\<close>.
  Selecting from \<open>B\<close> the rows with \<open>v = 1\<close> compares column 1 (the position of \<open>v\<close> in
  \<open>A\<close>) and keeps no row, where \<open>newonetest.py\<close>, which looks the attribute up in the source
  relation, keeps both.  Selecting from \<open>B\<close> on \<open>w\<close>, which \<open>B\<close> does not have, indexes a row
  out of range instead of reporting the unknown attribute.
\<close>

theorem selection_resolves_in_other_relation:
  "selection sample_runtime shared_store ''SELE (B) {v = 1}'' = Inr [[''v'', ''k'']]
   \<and> selection_nt sample_runtime shared_store ''SELE (B) {v = 1}'' =
       Inr [[''1'', ''2''], [''1'', ''2'']]
   \<and> selection sample_runtime shared_store ''SELE (B) {w = 3}'' = Inl IndexError
   \<and> selection_nt sample_runtime shared_store ''SELE (B) {w = 3}'' =
       Inl (UnknownAttribute ''w'')"
proof -
  have "selection sample_runtime shared_store ''SELE (B) {v = 1}'' = Inr [[''v'', ''k'']]"
    by code_simp
  moreover have "selection_nt sample_runtime shared_store ''SELE (B) {v = 1}'' =
       Inr [[''1'', ''2''], [''1'', ''2'']]"
    by code_simp
  moreover have "selection sample_runtime shared_store ''SELE (B) {w = 3}'' = Inl IndexError"
    by code_simp
  moreover have "selection_nt sample_runtime shared_store ''SELE (B) {w = 3}'' =
       Inl (UnknownAttribute ''w'')"
    by code_simp
  ultimately show ?thesis by simp
qed

text \<open>
  \<open>newonetest.py\<close> looks the attribute up in the source relation and reports it when it
  is absent, for every store and query.
\<close>

lemma selection_nt_unknown_attribute:
  assumes "map_of db (relation_part query) = Some rel" and "brace_part query = Inr c"
    and "split_ws (strip c) = [attr, operator, val]"
    and "attr \<notin> set (attributes rel)"
  shows "selection_nt rt db query = Inl (UnknownAttribute attr)"
  using assms by (simp add: selection_nt_def)

section \<open>Difference\<close>

lemma strip_keeps_first:
  "\<not> is_space c \<Longrightarrow> strip (c # s) = c # rev (dropWhile is_space (rev s))"
  by (simp add: strip_def dropWhile_append dropWhile_eq_Nil_conv)

lemma evaluate_query_paren: "evaluate_query rt db (CHR ''('' # s) = None"
proof -
  have "\<not> is_space CHR ''(''" by (simp add: is_space_def)
  then have "strip (CHR ''('' # s) = CHR ''('' # rev (dropWhile is_space (rev s))"
    by (rule strip_keeps_first)
  then show ?thesis
    by (simp add: evaluate_query.simps [of rt db "CHR ''('' # s"] Let_def startswith_def)
qed

lemma difference_rows_right_None: "difference_rows rt l None = Inr None"
  by (simp add: difference_rows_def falsy_def)

text \<open>
  The computation that \<open>difference\<close> performs on two evaluated operands is the set
  difference the specification describes: the left header, then each row of the left
  operand that is no row of the right operand, once.
\<close>

lemma difference_rows_sound:
  assumes "set_semantics rt"
    and "difference_rows rt (Some (lh # lrows)) (Some (rh # rrows)) = Inr (Some result)"
  shows "\<exists>rows. result = lh # rows \<and> set rows = set lrows - set rrows \<and> distinct rows"
proof -
  let ?d = "set_list rt (filter (\<lambda>row. row \<notin> set rrows) lrows)"
  from assms(1) have d: "distinct ?d" "set ?d = set lrows - set rrows"
    by (auto simp: set_semantics_def)
  from assms(2) have "result = (if ?d \<noteq> [] then lh # ?d else [lh])"
    by (auto simp: difference_rows_def falsy_def Let_def split: if_splits)
  then have "result = lh # ?d" by (cases ?d) auto
  with d show ?thesis by blast
qed

text \<open>
  Claim C5.  That computation is never reached.  \<open>difference\<close> builds its right operand as
  \<open>'(' + ...\<close> and evaluates it with \<open>evaluate_query\<close>, whose dispatch knows no query that
  starts with a parenthesis and returns \<open>None\<close> for it; \<open>difference\<close> then returns \<open>None\<close>.
  So for every runtime, store and query text the function either rejects the format or
  returns \<open>None\<close>: it never returns a relation, neither a set of rows nor a bare header.
\<close>

theorem difference_never_returns_relation:
  "difference rt db query = Inl InvalidFormat \<or> difference rt db query = Inr None"
  by (simp add: difference.simps [of rt db query] evaluate_query_paren difference_rows_right_None
      split: list.split)

lemma difference_same_operand:
  "difference sample_runtime sample_store ''X (EMP * DEPT) - (X (EMP * DEPT))'' = Inr None"
proof -
  have "split '') - ('' ''X (EMP * DEPT) - (X (EMP * DEPT))'' =
          [''X (EMP * DEPT'', ''X (EMP * DEPT))'']"
    by code_simp
  then show ?thesis
    by (simp add: difference.simps [of _ _ "''X (EMP * DEPT) - (X (EMP * DEPT))''"]
        evaluate_query_paren difference_rows_right_None)
qed


text \<open>
  In \<open>newonetest.py\<close> every line with a \<open>-\<close> (and no \<open>U\<close>) fails: \<open>execute_query\<close>
  passes two arguments to a method that takes one.  Called with one argument, the method
  takes the first data row of each operand for its header, so the difference of a
  selection with itself is that first row instead of an empty result.
\<close>

lemma execute_query_nt_difference_fails:
  assumes "\<not> contains ''U'' (unwrap query)" and "contains ''-'' (unwrap query)"
  shows "execute_query_nt rt db query = Inl TypeError"
proof -
  from assms(2) obtain i where "find_sub ''-'' (unwrap query) = Some i"
    by (auto simp: contains_def)
  then have "split_once ''-'' (unwrap query) =
      [take i (unwrap query), drop (i + length ''-'') (unwrap query)]"
    by (simp add: split_once_def)
  with assms show ?thesis
    by (simp add: execute_query_nt.simps [of rt db query] Let_def)
qed

lemma difference_nt_same_operand:
  "difference_nt sample_runtime sample_store
     ''SELE (EMP) {salary > 1} - SELE (EMP) {salary > 1}'' = Inr (Some [[''1'', ''Al'', ''50'']])"
proof -
  have sp: "split ''-'' ''SELE (EMP) {salary > 1} - SELE (EMP) {salary > 1}'' =
              [''SELE (EMP) {salary > 1} '', '' SELE (EMP) {salary > 1}'']"
    by code_simp
  have s1: "strip ''SELE (EMP) {salary > 1} '' = ''SELE (EMP) {salary > 1}''"
    and s2: "strip '' SELE (EMP) {salary > 1}'' = ''SELE (EMP) {salary > 1}''"
    and s3: "strip ''SELE (EMP) {salary > 1}'' = ''SELE (EMP) {salary > 1}''"
    by code_simp+
  have sel: "selection_nt sample_runtime sample_store ''SELE (EMP) {salary > 1}'' =
               Inr [[''1'', ''Al'', ''50''], [''2'', ''Bo'', ''90'']]"
    by code_simp
  have one: "process_single_query_nt sample_runtime sample_store ''SELE (EMP) {salary > 1}'' =
               Inr (Some [[''1'', ''Al'', ''50''], [''2'', ''Bo'', ''90'']])"
    by (simp add: process_single_query_nt.simps [of _ _ "''SELE (EMP) {salary > 1}''"]
        s3 startswith_def sel returned_def)
  have sl: "set_list sample_runtime = remdups" by (simp add: sample_runtime_def)
  show ?thesis
    by (simp add: difference_nt.simps [of _ _ "''SELE (EMP) {salary > 1} - SELE (EMP) {salary > 1}''"]
        sp s1 s2 one difference_results_nt_def sl)
qed


section \<open>Selection with an unrecognized operator\<close>

lemma filter_rows_Inr_iff:
  "filter_rows p xs = Inr ys \<longleftrightarrow>
     (\<forall>x\<in>set xs. \<exists>b. p x = Inr b) \<and> ys = filter (\<lambda>x. p x = Inr True) xs"
proof (induction xs arbitrary: ys)
  case Nil
  then show ?case by auto
next
  case (Cons x xs)
  show ?case
  proof (cases "p x")
    case (Inl e)
    then show ?thesis by auto
  next
    case (Inr b)
    show ?thesis
    proof (cases "filter_rows p xs")
      case (Inl e)
      with Cons.IH have "\<not> (\<forall>x\<in>set xs. \<exists>b. p x = Inr b)" by auto
      with Inl \<open>p x = Inr b\<close> show ?thesis by auto
    next
      case inner: (Inr zs)
      with Cons.IH [of zs] have all: "\<forall>x\<in>set xs. \<exists>b. p x = Inr b"
        and zs: "zs = filter (\<lambda>x. p x = Inr True) xs" by auto
      from inner Inr all zs show ?thesis by auto
    qed
  qed
qed

lemma evaluate_condition_unknown:
  "operator \<noteq> ''>'' \<Longrightarrow> operator \<noteq> ''<'' \<Longrightarrow> operator \<noteq> ''='' \<Longrightarrow>
   evaluate_condition rt val operator lit = Inr False"
  by (simp add: evaluate_condition_def)

lemma split_ws_Nil: "split_ws [] = []"
  by (simp add: split_ws_def)

lemma evaluate_conditions_single:
  "condition \<noteq> [] \<Longrightarrow>
   evaluate_conditions rt db row [condition] = evaluate_predicate rt db row condition"
  by (simp add: evaluate_conditions_def split: sum.split)

text \<open>
  Claim C9.  For an operator other than \<open>>\<close>, \<open><\<close> and \<open>=\<close> the comparison returns
  \<open>False\<close> and raises nothing, whatever the two values are.  Hence a selection whose
  condition is one predicate with such an operator returns no row and no error, provided
  nothing else fails first: the relation is stored, the attribute resolves and every row
  has the resolved column.  \<open>newonetest.py\<close> then returns the empty list, \<open>Fileread.py\<close> the
  header alone.
\<close>

theorem unrecognized_operator_selects_nothing:
  assumes op: "operator \<noteq> ''>''" "operator \<noteq> ''<''" "operator \<noteq> ''=''"
    and rel: "map_of db (relation_part query) = Some rel"
    and br: "brace_part query = Inr c"
    and toks: "split_ws (strip c) = [attr, operator, val]"
  shows "evaluate_condition rt v operator lit = Inr False
    \<and> (attr \<in> set (attributes rel) \<and>
        (\<forall>row\<in>set (data rel). index_of (attributes rel) attr < length row)
        \<longrightarrow> selection_nt rt db query = Inr [])
    \<and> (\<not> contains ''AND'' (strip c) \<and> \<not> contains ''OR'' (strip c) \<and>
        get_attribute_index db attr = Inr i \<and> (\<forall>row\<in>set (data rel). i < length row)
        \<longrightarrow> selection rt db query = Inr [attributes rel])"
proof (intro conjI impI)
  show "evaluate_condition rt v operator lit = Inr False"
    using op by (rule evaluate_condition_unknown)
next
  assume a: "attr \<in> set (attributes rel) \<and>
        (\<forall>row\<in>set (data rel). index_of (attributes rel) attr < length row)"
  let ?p = "\<lambda>row. if index_of (attributes rel) attr < length row
                then evaluate_condition rt (row ! index_of (attributes rel) attr) operator
                       (strip_chars [CHR 0x27] val)
                else Inl IndexError"
  from a op have "\<forall>row\<in>set (data rel). ?p row = Inr False"
    by (simp add: evaluate_condition_unknown)
  then have "filter_rows ?p (data rel) = Inr []"
    by (subst filter_rows_Inr_iff) (auto simp: filter_empty_conv)
  with rel br toks a show "selection_nt rt db query = Inr []"
    by (simp add: selection_nt_def Let_def)
next
  assume a: "\<not> contains ''AND'' (strip c) \<and> \<not> contains ''OR'' (strip c) \<and>
        get_attribute_index db attr = Inr i \<and> (\<forall>row\<in>set (data rel). i < length row)"
  from toks have ne: "strip c \<noteq> []" by (auto simp: split_ws_Nil)
  from a have pc: "parse_conditions (strip c) = [strip c]"
    by (simp add: parse_conditions_def)
  let ?p = "\<lambda>row. evaluate_conditions rt db row [strip c]"
  have "\<forall>row\<in>set (data rel). ?p row = Inr False"
    using a toks op
    by (simp add: evaluate_conditions_single [OF ne] evaluate_predicate_def
        evaluate_condition_unknown)
  then have "filter_rows ?p (data rel) = Inr []"
    by (subst filter_rows_Inr_iff) (auto simp: filter_empty_conv)
  with rel br pc show "selection rt db query = Inr [attributes rel]"
    by (simp add: selection_def Let_def)
qed

theorem unrecognized_operator_selects_nothing_witness:
  "evaluate_condition sample_runtime ''50'' ''?'' ''60'' = Inr False
   \<and> selection_nt sample_runtime sample_store ''SELE (EMP) {salary ? 60}'' = Inr []
   \<and> selection sample_runtime sample_store ''SELE (EMP) {salary ? 60}'' =
       Inr [[''id'', ''name'', ''salary'']]"
proof -
  have op: "''?'' \<noteq> ''>''" "''?'' \<noteq> ''<''" "''?'' \<noteq> ''=''" by simp_all
  have rel: "map_of sample_store (relation_part ''SELE (EMP) {salary ? 60}'') = Some emp"
    by code_simp
  have br: "brace_part ''SELE (EMP) {salary ? 60}'' = Inr ''salary ? 60''"
    by code_simp
  have toks: "split_ws (strip ''salary ? 60'') = [''salary'', ''?'', ''60'']"
    by code_simp
  have a1: "''salary'' \<in> set (attributes emp) \<and>
        (\<forall>row\<in>set (data emp). index_of (attributes emp) ''salary'' < length row)"
    by (simp add: emp_def index_of_def)
  have a2: "\<not> contains ''AND'' (strip ''salary ? 60'') \<and> \<not> contains ''OR'' (strip ''salary ? 60'') \<and>
        get_attribute_index sample_store ''salary'' = Inr 2 \<and> (\<forall>row\<in>set (data emp). 2 < length row)"
    by (simp add: emp_def dept_def sample_store_def index_of_def contains_def strip_def is_space_def)
  from unrecognized_operator_selects_nothing [OF op rel br toks, of sample_runtime "''50''" "''60''" 2]
    a1 a2
  show ?thesis by (simp add: emp_def)
qed



section \<open>The operand text of a selection or projection\<close>

lemma split_char_Nil: "split [c] [] = [[]]"
  by (subst split.simps) simp

lemma split_char_Cons:
  "split [c] (x # s) =
     (if x = c then [] # split [c] s else (x # hd (split [c] s)) # tl (split [c] s))"
proof (cases "x = c")
  case True
  then show ?thesis by (subst split.simps) simp
next
  case False
  show ?thesis
  proof (cases "find_sub [c] s")
    case None
    with False have "split [c] (x # s) = [x # s]" by (subst split.simps) simp
    moreover from None have "split [c] s = [s]" by (subst split.simps) simp
    ultimately show ?thesis using False by simp
  next
    case (Some i)
    with False have "split [c] (x # s) = (x # take i s) # split [c] (drop (i + 1) s)"
      by (subst split.simps) simp
    moreover from Some have "split [c] s = take i s # split [c] (drop (i + 1) s)"
      by (subst split.simps) simp
    ultimately show ?thesis using False by simp
  qed
qed

lemma hd_split_char: "hd (split [c] s) = before_first c s"
  by (induction s) (simp_all add: split_char_Nil split_char_Cons before_first_def)

lemma tl_split_char_Nil: "tl (split [c] s) = [] \<longleftrightarrow> c \<notin> set s"
  by (induction s) (auto simp: split_char_Nil split_char_Cons split_not_Nil)

lemma last_split_char: "last (split [c] s) = after_last c s"
proof (induction s)
  case Nil
  then show ?case by (simp add: split_char_Nil after_last_def)
next
  case (Cons x s)
  show ?case
  proof (cases "x = c")
    case True
    with Cons show ?thesis
      by (simp add: split_char_Cons split_not_Nil after_last_def takeWhile_append)
  next
    case False
    show ?thesis
    proof (cases "c \<in> set s")
      case True
      then have "tl (split [c] s) \<noteq> []" by (simp add: tl_split_char_Nil)
      then have "last ((x # hd (split [c] s)) # tl (split [c] s)) = last (split [c] s)"
        by (cases "split [c] s") auto
      with Cons False True show ?thesis
        by (auto simp: split_char_Cons after_last_def takeWhile_append)
    next
      case notin: False
      then have "tl (split [c] s) = []" by (simp add: tl_split_char_Nil)
      moreover from notin have "hd (split [c] s) = s"
        by (auto simp: hd_split_char before_first_def)
      ultimately show ?thesis using False notin
        by (simp add: split_char_Cons after_last_def takeWhile_append)
    qed
  qed
qed

lemma single_pair:
  assumes "CHR ''('' \<notin> set pre" "CHR ''('' \<notin> set mid" "CHR '')'' \<notin> set mid"
    and "CHR ''('' \<notin> set post" "CHR '')'' \<notin> set post"
  shows "strip (before_first CHR '')'' (after_last CHR ''('' (pre @ ''('' @ mid @ '')'' @ post))) =
         strip (between_first_and_last CHR ''('' CHR '')'' (pre @ ''('' @ mid @ '')'' @ post))"
  using assms
  by (simp add: before_first_def after_last_def between_first_and_last_def
      takeWhile_append dropWhile_append takeWhile_eq_all_conv dropWhile_eq_Nil_conv)

text \<open>
  Claim C8, as stated, at the nested query of the specification's scenario: the parser
  extracts \<open>EMP\<close>, the text between the first \<open>(\<close> and the last \<open>)\<close> is the inner
  selection.
\<close>

theorem relation_part_nested_counterexample:
  "relation_part ''PROJ (SELE (EMP) {salary > 60}) {name}'' = ''EMP''
   \<and> between_first_and_last CHR ''('' CHR '')'' ''PROJ (SELE (EMP) {salary > 60}) {name}'' =
       ''SELE (EMP) {salary > 60}''
   \<and> relation_part ''PROJ (SELE (EMP) {salary > 60}) {name}'' \<noteq>
       strip (between_first_and_last CHR ''('' CHR '')''
                ''PROJ (SELE (EMP) {salary > 60}) {name}'')"
proof -
  have 1: "relation_part ''PROJ (SELE (EMP) {salary > 60}) {name}'' = ''EMP''"
    by code_simp
  have 2: "between_first_and_last CHR ''('' CHR '')''
             ''PROJ (SELE (EMP) {salary > 60}) {name}'' = ''SELE (EMP) {salary > 60}''"
    by code_simp
  have 3: "strip ''SELE (EMP) {salary > 60}'' = ''SELE (EMP) {salary > 60}''"
    by code_simp
  from 1 2 3 show ?thesis by simp
qed

text \<open>
  Claim C8, amended.  For every query line the operand text of a selection or projection
  is the text after the last \<open>(\<close> of the line, cut at the first \<open>)\<close> that follows, with
  the surrounding whitespace removed.  On a line with a single pair of parentheses that is
  the text between the first \<open>(\<close> and the last \<open>)\<close>; on a nested query it is the innermost
  operand.
\<close>

theorem relation_part_innermost:
  "relation_part query = strip (before_first CHR '')'' (after_last CHR ''('' query))
   \<and> (CHR ''('' \<notin> set pre \<and> CHR ''('' \<notin> set mid \<and> CHR '')'' \<notin> set mid \<and>
       CHR ''('' \<notin> set post \<and> CHR '')'' \<notin> set post \<longrightarrow>
       relation_part (pre @ ''('' @ mid @ '')'' @ post) =
         strip (between_first_and_last CHR ''('' CHR '')'' (pre @ ''('' @ mid @ '')'' @ post)))"
proof -
  have eq: "relation_part q = strip (before_first CHR '')'' (after_last CHR ''('' q))" for q
    by (simp add: relation_part_def hd_split_char last_split_char)
  show ?thesis
    using eq [of query] eq [of "pre @ ''('' @ mid @ '')'' @ post"] single_pair [of pre mid post]
    by simp
qed

theorem relation_part_innermost_witness:
  "relation_part ''SELE (EMP) {salary > 60}'' =
     strip (between_first_and_last CHR ''('' CHR '')'' ''SELE (EMP) {salary > 60}'')
   \<and> relation_part ''PROJ (SELE (EMP) {salary > 60}) {name}'' =
     strip (before_first CHR '')''
              (after_last CHR ''('' ''PROJ (SELE (EMP) {salary > 60}) {name}''))"
proof -
  have h: "CHR ''('' \<notin> set ''SELE '' \<and> CHR ''('' \<notin> set ''EMP'' \<and> CHR '')'' \<notin> set ''EMP'' \<and>
       CHR ''('' \<notin> set '' {salary > 60}'' \<and> CHR '')'' \<notin> set '' {salary > 60}''"
    by simp
  from relation_part_innermost [of "''PROJ (SELE (EMP) {salary > 60}) {name}''"
      "''SELE ''" "''EMP''" "'' {salary > 60}''"] h
  show ?thesis by simp
qed

section \<open>Batch processing\<close>

text \<open>
  The loop of \<open>newonetest.py\<close> returns one entry per line, in the order of the lines, and
  its report is one block per line: the stripped line, the rows when the line returned
  rows, and an empty row.
\<close>

lemma process_loop_nt_append:
  "process_loop_nt run queries results =
     results @ map (\<lambda>line. (strip line,
                       case run (strip line) of Inl e \<Rightarrow> Failed e | Inr t \<Rightarrow> Rows t)) queries"
  by (induction queries arbitrary: results) (simp_all add: Let_def split: sum.split)

text \<open>
  When no \<open>print\<close> raises, the loop of \<open>Fileread.py\<close> returns one entry per line, in the
  order of the lines: the stripped line with the error of that line, or with its rows, or
  with no result.
\<close>

lemma process_loop_quiet:
  assumes "\<forall>m. \<not> out m"
  shows "process_loop out run queries results =
     Inr (results @ map (\<lambda>line. (strip line,
                            case run (strip line) of
                              Inl e \<Rightarrow> Failed e
                            | Inr None \<Rightarrow> NoResult
                            | Inr (Some t) \<Rightarrow> Rows t)) queries)"
  using assms
  by (induction queries arbitrary: results)
     (simp_all add: Let_def outcome_of_def split: sum.split option.split)

lemma batch_nt_one_entry_per_line:
  "process_queries_from_file_nt rt db queries =
     concat (map (\<lambda>line. [[strip line]] @
                    (case execute_query_nt rt db (strip line) of Inl e \<Rightarrow> [] | Inr t \<Rightarrow> t) @ [[]])
               queries)"
proof -
  have "report_entry (q, case r of Inl e \<Rightarrow> Failed e | Inr t \<Rightarrow> Rows t) =
          [[q]] @ (case r of Inl e \<Rightarrow> [] | Inr t \<Rightarrow> t) @ [[]]" for q and r :: "error + table"
    by (simp add: report_entry_def split: sum.split)
  then show ?thesis
    by (simp add: process_queries_from_file_nt_def write_report_def process_loop_nt_append comp_def)
qed


section \<open>Union in \<open>Fileread.py\<close>\<close>

text \<open>
  Claim C4, as stated, at a relation whose name contains the letter \<open>U\<close>.  \<open>union\<close> splits
  the operand text at every \<open>U\<close> and rejects a text that does not split into exactly two
  parts: the union of \<open>STUDENT\<close> with itself, two operands with one and the same attribute
  list, fails.
\<close>

theorem union_name_with_U_counterexample:
  "union sample_runtime student_store ''U (STUDENT U STUDENT)'' = Inl ArityError
   \<and> map_of student_store ''STUDENT'' = Some student
   \<and> split ''U'' (relation_part ''U (STUDENT U STUDENT)'') = [''ST'', ''DENT '', '' ST'', ''DENT'']"
proof -
  have sp: "split ''U'' (relation_part ''U (STUDENT U STUDENT)'') =
              [''ST'', ''DENT '', '' ST'', ''DENT'']"
    by code_simp
  then have "union sample_runtime student_store ''U (STUDENT U STUDENT)'' = Inl ArityError"
    by (simp add: union_def)
  moreover have "map_of student_store ''STUDENT'' = Some student"
    by (simp add: student_store_def)
  ultimately show ?thesis using sp by simp
qed

text \<open>
  Claim C4, amended.  \<open>union\<close> of \<open>Fileread.py\<close> rejects an operand text that does not
  split at the letter \<open>U\<close> into exactly two parts.  When it does and the two parts name
  stored relations \<open>A\<close> and \<open>B\<close>, \<open>union\<close> fails with the schema mismatch if their attribute
  lists differ; if they are equal the result has that attribute list as header and its
  rows are the rows of \<open>A\<close> together with the rows of \<open>B\<close>, each once.
\<close>

theorem union_schema_and_rows:
  assumes "set_semantics rt"
  shows "(length (split ''U'' (relation_part query)) \<noteq> 2 \<longrightarrow> union rt db query = Inl ArityError)
       \<and> (split ''U'' (relation_part query) = [l, r] \<and>
          map_of db (strip l) = Some A \<and> map_of db (strip r) = Some B \<longrightarrow>
            (attributes A \<noteq> attributes B \<longrightarrow> union rt db query = Inl SchemaMismatch)
          \<and> (attributes A = attributes B \<longrightarrow>
               (\<exists>rows. union rt db query = Inr (attributes A # rows)
                     \<and> set rows = set (data A) \<union> set (data B) \<and> distinct rows)))"
  using assms
  by (simp add: union_def get_relation_data_def set_semantics_def)

theorem union_schema_and_rows_witness:
  "union sample_runtime sample_store ''U (EMP U DEPT)'' = Inl SchemaMismatch
   \<and> (\<exists>rows. union sample_runtime sample_store ''U (EMP U EMP)'' = Inr (attributes emp # rows)
          \<and> set rows = set (data emp) \<and> distinct rows)
   \<and> union sample_runtime sample_store ''U (EMP)'' = Inl ArityError"
proof -
  have s: "set_semantics sample_runtime"
    by (simp add: set_semantics_def sample_runtime_def)
  have p1: "split ''U'' (relation_part ''U (EMP U DEPT)'') = [''EMP '', '' DEPT'']"
    by code_simp
  have p2: "split ''U'' (relation_part ''U (EMP U EMP)'') = [''EMP '', '' EMP'']"
    by code_simp
  have p3: "split ''U'' (relation_part ''U (EMP)'') = [''EMP'']"
    by code_simp
  have e1: "map_of sample_store (strip ''EMP '') = Some emp" by code_simp
  have e2: "map_of sample_store (strip '' EMP'') = Some emp" by code_simp
  have d: "map_of sample_store (strip '' DEPT'') = Some dept" by code_simp
  have ne: "attributes emp \<noteq> attributes dept" by (simp add: emp_def dept_def)
  from union_schema_and_rows [OF s, of "''U (EMP U DEPT)''" sample_store "''EMP ''" "'' DEPT''" emp dept]
    p1 e1 d ne
  have 1: "union sample_runtime sample_store ''U (EMP U DEPT)'' = Inl SchemaMismatch"
    by simp
  from union_schema_and_rows [OF s, of "''U (EMP U EMP)''" sample_store "''EMP ''" "'' EMP''" emp emp]
    p2 e1 e2
  have 2: "\<exists>rows. union sample_runtime sample_store ''U (EMP U EMP)'' = Inr (attributes emp # rows)
          \<and> set rows = set (data emp) \<and> distinct rows"
    by simp
  from union_schema_and_rows [OF s, of "''U (EMP)''" sample_store] p3
  have 3: "union sample_runtime sample_store ''U (EMP)'' = Inl ArityError"
    by simp
  from 1 2 3 show ?thesis by simp
qed

text \<open>
  The union of \<open>newonetest.py\<close> compares no schema and removes duplicates only of right
  rows against left rows: operands from relations with the headers \<open>k, v, w\<close> and \<open>v, k\<close>
  are merged, and the repeated row of one operand stays twice.
\<close>

lemma union_nt_mixed_rows:
  "execute_query_nt sample_runtime shared_store ''SELE (A) {k = 1} U SELE (B) {v = 1}'' =
     Inr [[''1'', ''2'', ''3''], [''1'', ''2''], [''1'', ''2'']]"
  by code_simp

section \<open>Selection in \<open>Fileread.py\<close>\<close>

lemma evaluate_conditions_loop_iff:
  "evaluate_conditions_loop rt db row conditions acc = Inr results \<longleftrightarrow>
     (\<forall>c\<in>set conditions. c \<noteq> [] \<longrightarrow> (\<exists>b. evaluate_predicate rt db row c = Inr b)) \<and>
     results = acc @ map (\<lambda>c. evaluate_predicate rt db row c = Inr True)
                       (filter (\<lambda>c. c \<noteq> []) conditions)"
proof (induction conditions arbitrary: acc)
  case Nil
  then show ?case by auto
next
  case (Cons c conditions)
  show ?case
  proof (cases "c = []")
    case True
    with Cons.IH [of acc] show ?thesis by simp
  next
    case False
    show ?thesis
    proof (cases "evaluate_predicate rt db row c")
      case (Inl e)
      with False show ?thesis by auto
    next
      case (Inr b)
      with False Cons.IH [of "acc @ [b]"] show ?thesis by auto
    qed
  qed
qed

lemma evaluate_conditions_True_iff:
  "evaluate_conditions rt db row conditions = Inr True \<longleftrightarrow>
     (\<forall>c\<in>set conditions. c \<noteq> [] \<longrightarrow> evaluate_predicate rt db row c = Inr True)"
proof (cases "evaluate_conditions_loop rt db row conditions []")
  case (Inl e)
  then have "\<not> (\<forall>c\<in>set conditions. c \<noteq> [] \<longrightarrow> (\<exists>b. evaluate_predicate rt db row c = Inr b))"
    using evaluate_conditions_loop_iff [of rt db row conditions "[]"] by auto
  with Inl show ?thesis by (auto simp: evaluate_conditions_def)
next
  case (Inr results)
  then have "results = map (\<lambda>c. evaluate_predicate rt db row c = Inr True)
                       (filter (\<lambda>c. c \<noteq> []) conditions)"
    using evaluate_conditions_loop_iff [of rt db row conditions "[]" results] by simp
  with Inr show ?thesis
    by (auto simp: evaluate_conditions_def list_all_iff)
qed

lemma evaluate_conditions_returns_iff:
  "(\<exists>b. evaluate_conditions rt db row conditions = Inr b) \<longleftrightarrow>
     (\<forall>c\<in>set conditions. c \<noteq> [] \<longrightarrow> (\<exists>b. evaluate_predicate rt db row c = Inr b))"
  using evaluate_conditions_loop_iff [of rt db row conditions "[]"]
  by (cases "evaluate_conditions_loop rt db row conditions []")
     (auto simp: evaluate_conditions_def)

lemma selection_Inr_iff:
  "selection rt db query = Inr result \<longleftrightarrow>
     (\<exists>rel c. map_of db (relation_part query) = Some rel \<and> brace_part query = Inr c \<and>
        (\<forall>row\<in>set (data rel). \<exists>b. evaluate_conditions rt db row (parse_conditions (strip c)) = Inr b) \<and>
        result = attributes rel #
          filter (\<lambda>row. evaluate_conditions rt db row (parse_conditions (strip c)) = Inr True) (data rel))"
  (is "?lhs \<longleftrightarrow> ?rhs")
proof
  assume ?lhs
  then obtain rel c kept where rel: "map_of db (relation_part query) = Some rel"
    and br: "brace_part query = Inr c"
    and f: "filter_rows (\<lambda>row. evaluate_conditions rt db row (parse_conditions (strip c))) (data rel)
              = Inr kept"
    and res: "result = attributes rel # kept"
    by (auto simp: selection_def Let_def split: sum.splits option.splits)
  from f res rel br show ?rhs by (simp add: filter_rows_Inr_iff)
next
  assume ?rhs
  then obtain rel c where rel: "map_of db (relation_part query) = Some rel"
    and br: "brace_part query = Inr c"
    and ok: "\<forall>row\<in>set (data rel). \<exists>b. evaluate_conditions rt db row (parse_conditions (strip c)) = Inr b"
    and res: "result = attributes rel #
          filter (\<lambda>row. evaluate_conditions rt db row (parse_conditions (strip c)) = Inr True) (data rel)"
    by blast
  from ok have "filter_rows (\<lambda>row. evaluate_conditions rt db row (parse_conditions (strip c))) (data rel)
      = Inr (filter (\<lambda>row. evaluate_conditions rt db row (parse_conditions (strip c)) = Inr True) (data rel))"
    by (simp add: filter_rows_Inr_iff)
  with rel br res show ?lhs by (simp add: selection_def Let_def)
qed

text \<open>
  What \<open>selection\<close> of \<open>Fileread.py\<close> returns has the shape of a filter: the header of the
  source relation, unchanged, followed by rows of the relation in their order, those for
  which every non-empty predicate evaluates to true in \<open>evaluate_predicate\<close>.
\<close>

lemma selection_structure:
  assumes "selection rt db query = Inr result"
  shows "\<exists>rel c kept. map_of db (relation_part query) = Some rel \<and> brace_part query = Inr c
       \<and> result = attributes rel # kept
       \<and> length kept \<le> length (data rel)
       \<and> subseq kept (data rel)
       \<and> kept = filter (\<lambda>row. \<forall>p\<in>set (parse_conditions (strip c)).
                           p \<noteq> [] \<longrightarrow> evaluate_predicate rt db row p = Inr True) (data rel)
       \<and> (\<forall>row\<in>set kept. \<forall>p\<in>set (parse_conditions (strip c)).
             p \<noteq> [] \<longrightarrow> evaluate_predicate rt db row p = Inr True)"
proof -
  from assms obtain rel c where rel: "map_of db (relation_part query) = Some rel"
    and br: "brace_part query = Inr c"
    and res: "result = attributes rel #
          filter (\<lambda>row. evaluate_conditions rt db row (parse_conditions (strip c)) = Inr True) (data rel)"
    by (auto simp: selection_Inr_iff)
  let ?kept = "filter (\<lambda>row. \<forall>p\<in>set (parse_conditions (strip c)).
                           p \<noteq> [] \<longrightarrow> evaluate_predicate rt db row p = Inr True) (data rel)"
  from res have "result = attributes rel # ?kept"
    by (simp add: evaluate_conditions_True_iff)
  moreover have "length ?kept \<le> length (data rel)" by (rule length_filter_le)
  moreover have "subseq ?kept (data rel)" by (rule subseq_filter_left)
  moreover have "\<forall>row\<in>set ?kept. \<forall>p\<in>set (parse_conditions (strip c)).
             p \<noteq> [] \<longrightarrow> evaluate_predicate rt db row p = Inr True" by simp
  ultimately show ?thesis using rel br by blast
qed

text \<open>
  Claim C6.  The rows kept need not satisfy the predicate.  \<open>evaluate_predicate\<close> reads
  the column that \<open>get_attribute_index\<close> finds in the first stored relation with the
  attribute.  In the store below relation \<open>B\<close> has the header \<open>v, k\<close> and two rows \<open>1, 2\<close>,
  and relation \<open>A\<close>, stored first, has \<open>k\<close> in front.  Selecting from \<open>B\<close> the rows with
  \<open>k = 1\<close> keeps both rows, in which \<open>k\<close> is \<open>2\<close>; \<open>newonetest.py\<close> keeps none.
\<close>

theorem selection_keeps_rows_failing_predicate:
  "selection sample_runtime shared_store ''SELE (B) {k = 1}'' =
     Inr [[''v'', ''k''], [''1'', ''2''], [''1'', ''2'']]
   \<and> map_of shared_store (relation_part ''SELE (B) {k = 1}'') = Some rel_b
   \<and> predicate_holds sample_runtime rel_b [''1'', ''2''] ''k = 1'' = Inr False
   \<and> selection_nt sample_runtime shared_store ''SELE (B) {k = 1}'' = Inr []"
proof -
  have "selection sample_runtime shared_store ''SELE (B) {k = 1}'' =
     Inr [[''v'', ''k''], [''1'', ''2''], [''1'', ''2'']]"
    by code_simp
  moreover have "map_of shared_store (relation_part ''SELE (B) {k = 1}'') = Some rel_b"
    by code_simp
  moreover have "predicate_holds sample_runtime rel_b [''1'', ''2''] ''k = 1'' = Inr False"
    by code_simp
  moreover have "selection_nt sample_runtime shared_store ''SELE (B) {k = 1}'' = Inr []"
    by code_simp
  ultimately show ?thesis by simp
qed

section \<open>Compound conditions\<close>

lemma contains_iff_sublist: "contains sep s \<longleftrightarrow> sublist sep s"
  by (induction s) (auto simp: contains_def sublist_Cons_right)

lemma prefix_barrier:
  assumes "x \<notin> set xs" and "prefix xs (u @ x # b)"
  shows "prefix xs u"
proof -
  from assms(2) consider "prefix xs u" | us where "xs = u @ us" "prefix us (x # b)"
    by (auto simp: prefix_append)
  then show ?thesis
  proof cases
    case 1
    then show ?thesis .
  next
    case 2
    with assms(1) have "us = []" by (cases us) auto
    with 2 show ?thesis by simp
  qed
qed

lemma sublist_barrier:
  assumes "x \<notin> set xs"
  shows "sublist xs (a @ x # b) \<longleftrightarrow> sublist xs a \<or> sublist xs b"
proof (induction a)
  case Nil
  have "prefix xs (x # b) \<Longrightarrow> xs = []"
    using prefix_barrier [OF assms, of "[]" b] by simp
  then show ?case by (auto simp: sublist_Cons_right)
next
  case (Cons c a)
  have "prefix xs (c # a) \<Longrightarrow> prefix xs ((c # a) @ x # b)"
    by (rule prefix_prefix)
  then have "prefix xs (c # a @ x # b) \<longleftrightarrow> prefix xs (c # a)"
    using prefix_barrier [OF assms, of "c # a" b] by auto
  with Cons show ?case by (auto simp: sublist_Cons_right)
qed

lemma find_sub_append_sep:
  assumes "\<And>u. u \<noteq> [] \<Longrightarrow> suffix u p \<Longrightarrow> \<not> prefix sep (u @ sep @ rest)"
  shows "find_sub sep (p @ sep @ rest) = Some (length p)"
  using assms
proof (induction p)
  case Nil
  have pre: "prefix sep (sep @ rest)" by simp
  show ?case
  proof (cases "sep @ rest")
    case Nil
    then show ?thesis by simp
  next
    case (Cons a l)
    with pre have "find_sub sep (a # l) = Some 0" by simp
    with Cons show ?thesis by simp
  qed
next
  case (Cons c p)
  from Cons.prems [of "c # p"] have "\<not> prefix sep (c # p @ sep @ rest)" by simp
  moreover have "find_sub sep (p @ sep @ rest) = Some (length p)"
  proof (rule Cons.IH)
    fix u assume "u \<noteq> []" "suffix u p"
    then show "\<not> prefix sep (u @ sep @ rest)"
      using Cons.prems [of u] by (simp add: suffix_Cons)
  qed
  ultimately show ?case by simp
qed

lemma no_straddle_AND:
  assumes "\<not> sublist ''AND'' p" "u \<noteq> []" "suffix u p"
  shows "\<not> prefix ''AND'' (u @ ''AND'' @ rest)"
proof
  assume pre: "prefix ''AND'' (u @ ''AND'' @ rest)"
  show False
  proof (cases u)
    case Nil
    with assms(2) show False by simp
  next
    case c1: (Cons a u1)
    show False
    proof (cases u1)
      case Nil
      with c1 pre show False by simp
    next
      case c2: (Cons b u2)
      show False
      proof (cases u2)
        case Nil
        with c1 c2 pre show False by simp
      next
        case c3: (Cons c u3)
        with c1 c2 pre have "u = ''AND'' @ u3" by simp
        moreover from assms(3) obtain zs where "p = zs @ u" by (auto simp: suffix_def)
        ultimately have "p = zs @ ''AND'' @ u3" by simp
        then have "sublist ''AND'' p" by (simp only: sublist_appendI)
        with assms(1) show False by simp
      qed
    qed
  qed
qed

lemma no_straddle_OR:
  assumes "\<not> sublist ''OR'' p" "u \<noteq> []" "suffix u p"
  shows "\<not> prefix ''OR'' (u @ ''OR'' @ rest)"
proof
  assume pre: "prefix ''OR'' (u @ ''OR'' @ rest)"
  show False
  proof (cases u)
    case Nil
    with assms(2) show False by simp
  next
    case c1: (Cons a u1)
    show False
    proof (cases u1)
      case Nil
      with c1 pre show False by simp
    next
      case c2: (Cons b u2)
      with c1 pre have "u = ''OR'' @ u2" by simp
      moreover from assms(3) obtain zs where "p = zs @ u" by (auto simp: suffix_def)
      ultimately have "p = zs @ ''OR'' @ u2" by simp
      then have "sublist ''OR'' p" by (simp only: sublist_appendI)
      with assms(1) show False by simp
    qed
  qed
qed

lemma split_join:
  assumes ne: "sep \<noteq> []"
    and first: "\<And>p rest. \<not> contains sep p \<Longrightarrow> find_sub sep (p @ sep @ rest) = Some (length p)"
    and clean: "\<forall>p\<in>set ps. \<not> contains sep p" and "ps \<noteq> []"
  shows "split sep (join sep ps) = ps"
  using clean \<open>ps \<noteq> []\<close>
proof (induction ps rule: induct_list012)
  case 1
  then show ?case by simp
next
  case (2 p)
  then have "find_sub sep p = None" by (simp add: contains_def)
  then show ?case by (subst split.simps) simp
next
  case (3 p q ps)
  from "3.prems" have "find_sub sep (p @ sep @ join sep (q # ps)) = Some (length p)"
    by (simp add: first)
  moreover from "3.IH"(2) "3.prems" have "split sep (join sep (q # ps)) = q # ps" by simp
  ultimately show ?case using ne by (subst split.simps) simp
qed

lemma find_sub_AND:
  "\<not> contains ''AND'' p \<Longrightarrow> find_sub ''AND'' (p @ ''AND'' @ rest) = Some (length p)"
  by (rule find_sub_append_sep) (simp only: contains_iff_sublist no_straddle_AND not_False_eq_True)

lemma find_sub_OR:
  "\<not> contains ''OR'' p \<Longrightarrow> find_sub ''OR'' (p @ ''OR'' @ rest) = Some (length p)"
  by (rule find_sub_append_sep) (simp only: contains_iff_sublist no_straddle_OR not_False_eq_True)

lemma split_join_AND:
  "\<forall>p\<in>set ps. \<not> contains ''AND'' p \<Longrightarrow> ps \<noteq> [] \<Longrightarrow> split ''AND'' (join ''AND'' ps) = ps"
proof (rule split_join)
  show "''AND'' \<noteq> []" by simp
next
  fix p rest
  assume "\<not> contains ''AND'' p"
  then show "find_sub ''AND'' (p @ ''AND'' @ rest) = Some (length p)" by (rule find_sub_AND)
qed assumption+

lemma split_join_OR:
  "\<forall>p\<in>set ps. \<not> contains ''OR'' p \<Longrightarrow> ps \<noteq> [] \<Longrightarrow> split ''OR'' (join ''OR'' ps) = ps"
proof (rule split_join)
  show "''OR'' \<noteq> []" by simp
next
  fix p rest
  assume "\<not> contains ''OR'' p"
  then show "find_sub ''OR'' (p @ ''OR'' @ rest) = Some (length p)" by (rule find_sub_OR)
qed assumption+

lemma contains_join:
  "2 \<le> length ps \<Longrightarrow> contains sep (join sep ps)"
proof -
  assume "2 \<le> length ps"
  then obtain p q qs where "ps = p # q # qs"
    by (cases ps; cases "tl ps") auto
  then show ?thesis by (simp add: contains_iff_sublist)
qed

lemma no_AND_in_join_OR:
  "\<forall>p\<in>set ps. \<not> contains ''AND'' p \<Longrightarrow> \<not> contains ''AND'' (join ''OR'' ps)"
proof (induction ps rule: induct_list012)
  case 1
  then show ?case by (simp add: contains_iff_sublist)
next
  case (2 p)
  then show ?case by simp
next
  case (3 p q ps)
  have "sublist ''AND'' (p @ CHR ''O'' # CHR ''R'' # join ''OR'' (q # ps)) \<longleftrightarrow>
        sublist ''AND'' p \<or> sublist ''AND'' (CHR ''R'' # join ''OR'' (q # ps))"
    by (rule sublist_barrier) simp
  moreover have "sublist ''AND'' (CHR ''R'' # join ''OR'' (q # ps)) \<longleftrightarrow>
        sublist ''AND'' (join ''OR'' (q # ps))"
    using sublist_barrier [of "CHR ''R''" "''AND''" "[]" "join ''OR'' (q # ps)"] by simp
  ultimately show ?case using "3.IH" "3.prems" by (simp add: contains_iff_sublist)
qed

lemma parse_conditions_join:
  assumes "\<forall>p\<in>set ps. \<not> contains ''AND'' p \<and> \<not> contains ''OR'' p" and "2 \<le> length ps"
  shows "parse_conditions (join ''AND'' ps) = map strip ps"
    and "parse_conditions (join ''OR'' ps) = map strip ps"
proof -
  from assms(2) have ne: "ps \<noteq> []" by auto
  from assms show "parse_conditions (join ''AND'' ps) = map strip ps"
    by (simp add: parse_conditions_def contains_join split_join_AND ne)
  from assms show "parse_conditions (join ''OR'' ps) = map strip ps"
    by (simp add: parse_conditions_def contains_join no_AND_in_join_OR split_join_OR ne)
qed


lemma evaluate_predicate_resolved:
  assumes "resolves_in_source db rel condition"
  shows "evaluate_predicate rt db row condition = predicate_holds rt rel row condition"
  using assms
  by (auto simp: resolves_in_source_def evaluate_predicate_def predicate_holds_def
      split: list.splits)

text \<open>
  Claim C2, as stated, at a relation with the attributes \<open>ACTOR\<close> and \<open>PAY\<close> and the row
  \<open>Bo, 90\<close>.  Both predicates hold for the row.  Combined with \<open>AND\<close> the selection keeps
  the row; combined with \<open>OR\<close> the condition is split inside \<open>ACTOR\<close> and the selection
  fails.
\<close>

theorem separator_inside_name_counterexample:
  "selection sample_runtime cast_store ''SELE (CAST) {ACTOR = Bo AND PAY > 60}'' =
     Inr [[''ACTOR'', ''PAY''], [''Bo'', ''90'']]
   \<and> selection sample_runtime cast_store ''SELE (CAST) {ACTOR = Bo OR PAY > 60}'' =
     Inl MalformedCondition
   \<and> predicate_holds sample_runtime cast_rel [''Bo'', ''90''] ''ACTOR = Bo'' = Inr True
   \<and> predicate_holds sample_runtime cast_rel [''Bo'', ''90''] ''PAY > 60'' = Inr True"
proof -
  have "selection sample_runtime cast_store ''SELE (CAST) {ACTOR = Bo AND PAY > 60}'' =
     Inr [[''ACTOR'', ''PAY''], [''Bo'', ''90'']]"
    by code_simp
  moreover have "selection sample_runtime cast_store ''SELE (CAST) {ACTOR = Bo OR PAY > 60}'' =
     Inl MalformedCondition"
    by code_simp
  moreover have "predicate_holds sample_runtime cast_rel [''Bo'', ''90''] ''ACTOR = Bo'' = Inr True"
    by code_simp
  moreover have "predicate_holds sample_runtime cast_rel [''Bo'', ''90''] ''PAY > 60'' = Inr True"
    by code_simp
  ultimately show ?thesis by simp
qed

text \<open>
  Claim C2, amended.  Take predicates \<open>ps\<close>, at least two, none containing the text \<open>AND\<close>
  or \<open>OR\<close>, each with its attribute found at its position in the source relation, and a
  selection of \<open>Fileread.py\<close> whose condition is \<open>ps\<close> combined with the separator \<open>AND\<close> or
  with the separator \<open>OR\<close>.  With either separator the condition parses to the same list,
  the stripped predicates, and, when no predicate raises on any row, the selection returns
  the header followed by exactly the rows of the source relation for which every
  (non-empty) predicate holds.
\<close>

theorem compound_condition_is_conjunction:
  assumes clean: "\<forall>p\<in>set ps. \<not> contains ''AND'' p \<and> \<not> contains ''OR'' p"
    and two: "2 \<le> length ps"
    and sep: "sep = ''AND'' \<or> sep = ''OR''"
    and rel: "map_of db (relation_part query) = Some rel"
    and br: "brace_part query = Inr c"
    and c: "strip c = join sep ps"
    and res: "\<forall>p\<in>set ps. resolves_in_source db rel (strip p)"
    and ok: "\<forall>row\<in>set (data rel). \<forall>p\<in>set ps.
               strip p \<noteq> [] \<longrightarrow> (\<exists>b. predicate_holds rt rel row (strip p) = Inr b)"
  shows "parse_conditions (join sep ps) = map strip ps
       \<and> selection rt db query =
           Inr (attributes rel #
                filter (\<lambda>row. \<forall>p\<in>set ps.
                          strip p \<noteq> [] \<longrightarrow> predicate_holds rt rel row (strip p) = Inr True)
                  (data rel))"
proof -
  from sep parse_conditions_join [OF clean two]
  have pc: "parse_conditions (join sep ps) = map strip ps" by auto
  from res have same: "\<forall>p\<in>set ps. evaluate_predicate rt db row (strip p) =
      predicate_holds rt rel row (strip p)" for row
    by (simp add: evaluate_predicate_resolved)
  have returns: "\<forall>row\<in>set (data rel).
      \<exists>b. evaluate_conditions rt db row (parse_conditions (strip c)) = Inr b"
    using ok by (simp add: c pc evaluate_conditions_returns_iff same)
  have "selection rt db query =
      Inr (attributes rel #
           filter (\<lambda>row. evaluate_conditions rt db row (parse_conditions (strip c)) = Inr True)
             (data rel))"
    using rel br returns by (subst selection_Inr_iff) blast
  then show ?thesis
    by (simp add: pc c evaluate_conditions_True_iff same)
qed

theorem compound_condition_is_conjunction_witness:
  "selection sample_runtime sample_store ''SELE (EMP) {salary > 60 OR id = 1}'' =
     Inr [[''id'', ''name'', ''salary'']]
   \<and> selection sample_runtime sample_store ''SELE (EMP) {salary > 60 AND id = 1}'' =
     Inr [[''id'', ''name'', ''salary'']]
   \<and> predicate_holds sample_runtime emp [''2'', ''Bo'', ''90''] ''salary > 60'' = Inr True
   \<and> predicate_holds sample_runtime emp [''1'', ''Al'', ''50''] ''id = 1'' = Inr True"
proof -
  let ?ps = "[''salary > 60 '', '' id = 1'']"
  have clean: "\<forall>p\<in>set ?ps. \<not> contains ''AND'' p \<and> \<not> contains ''OR'' p"
    by code_simp
  have two: "2 \<le> length ?ps" by simp
  have rel_or: "map_of sample_store (relation_part ''SELE (EMP) {salary > 60 OR id = 1}'') = Some emp"
    by code_simp
  have rel_and: "map_of sample_store (relation_part ''SELE (EMP) {salary > 60 AND id = 1}'') = Some emp"
    by code_simp
  have br_or: "brace_part ''SELE (EMP) {salary > 60 OR id = 1}'' = Inr ''salary > 60 OR id = 1''"
    by code_simp
  have br_and: "brace_part ''SELE (EMP) {salary > 60 AND id = 1}'' = Inr ''salary > 60 AND id = 1''"
    by code_simp
  have c_or: "strip ''salary > 60 OR id = 1'' = join ''OR'' ?ps" by code_simp
  have c_and: "strip ''salary > 60 AND id = 1'' = join ''AND'' ?ps" by code_simp
  have s1: "strip ''salary > 60 '' = ''salary > 60''" and s2: "strip '' id = 1'' = ''id = 1''"
    by code_simp+
  have r1: "resolves_in_source sample_store emp ''salary > 60''"
    and r2: "resolves_in_source sample_store emp ''id = 1''"
    by code_simp+
  have res: "\<forall>p\<in>set ?ps. resolves_in_source sample_store emp (strip p)"
    by (simp add: s1 s2 r1 r2)
  have de: "data emp = [[''1'', ''Al'', ''50''], [''2'', ''Bo'', ''90'']]"
    and ae: "attributes emp = [''id'', ''name'', ''salary'']"
    by (simp_all add: emp_def)
  have e1: "predicate_holds sample_runtime emp [''1'', ''Al'', ''50''] ''salary > 60'' = Inr False"
    by code_simp
  have e2: "predicate_holds sample_runtime emp [''1'', ''Al'', ''50''] ''id = 1'' = Inr True"
    by code_simp
  have e3: "predicate_holds sample_runtime emp [''2'', ''Bo'', ''90''] ''salary > 60'' = Inr True"
    by code_simp
  have e4: "predicate_holds sample_runtime emp [''2'', ''Bo'', ''90''] ''id = 1'' = Inr False"
    by code_simp
  have ok: "\<forall>row\<in>set (data emp). \<forall>p\<in>set ?ps.
               strip p \<noteq> [] \<longrightarrow> (\<exists>b. predicate_holds sample_runtime emp row (strip p) = Inr b)"
    by (auto simp: de s1 s2 e1 e2 e3 e4)
  from compound_condition_is_conjunction [OF clean two _ rel_or br_or c_or res ok]
  have 1: "selection sample_runtime sample_store ''SELE (EMP) {salary > 60 OR id = 1}'' =
     Inr [[''id'', ''name'', ''salary'']]"
    by (simp add: de ae s1 s2 e1 e2 e3 e4)
  from compound_condition_is_conjunction [OF clean two _ rel_and br_and c_and res ok]
  have 2: "selection sample_runtime sample_store ''SELE (EMP) {salary > 60 AND id = 1}'' =
     Inr [[''id'', ''name'', ''salary'']]"
    by (simp add: de ae s1 s2 e1 e2 e3 e4)
  from 1 2 e2 e3 show ?thesis by simp
qed

end
